theory Spec2Isabelle
  imports Complex_Main "HOL-Library.Sublist"
begin

section \<open>JavaScript values used by the orchestration code\<close>

text \<open>
  The development embeds \<^verbatim>\<open>src/index.ts\<close> (the \<^verbatim>\<open>createOmiAI\<close> factory that starts at
  line 175): its helper \<^verbatim>\<open>fallback\<close>, \<^verbatim>\<open>messageMap\<close>, \<^verbatim>\<open>decidePreConfig\<close> and the
  \<^verbatim>\<open>generate\<close> pipeline.  Strings are lists of 8-bit code units, so every string of
  the model is a JavaScript string whose code units are below 256.  Thrown values are
  values of the type \<open>error\<close>; an \<^verbatim>\<open>undefined\<close> is the \<open>None\<close> of an option.

  The providers, the search service and the media services are outside the repository.
  They are the fields of a record \<open>env\<close>: each outbound call is a function from the
  arguments of the call to the value it returns or the error it throws, and
  \<^verbatim>\<open>JSON.stringify\<close> is such a field too.  A run of \<^verbatim>\<open>generate\<close> threads the mutable
  locals of the source (\<^verbatim>\<open>prompts\<close>, \<^verbatim>\<open>toolUsed\<close>, \<^verbatim>\<open>genFiles\<close>) through the stages
  as a state, together with the list of the outbound calls issued so far.
\<close>

datatype error =
    TypeError string
  | Error string
  | Rejected string

text \<open>Truthiness of \<^verbatim>\<open>string | undefined\<close> and of \<^verbatim>\<open>boolean | undefined\<close>, the operator
  \<^verbatim>\<open>||\<close> on the former, and the interpolation of such a value in a template literal.\<close>

definition truthy :: "string option \<Rightarrow> bool" where
  "truthy v = (case v of None \<Rightarrow> False | Some s \<Rightarrow> s \<noteq> [])"

definition truthy_bool :: "bool option \<Rightarrow> bool" where
  "truthy_bool v = (v = Some True)"

definition or_else :: "string option \<Rightarrow> string option \<Rightarrow> string option" where
  "or_else a b = (if truthy a then a else b)"

definition interpolate :: "string option \<Rightarrow> string" where
  "interpolate v = (case v of None \<Rightarrow> ''undefined'' | Some s \<Rightarrow> s)"

subsection \<open>String search, split and trim\<close>

fun index_of :: "string \<Rightarrow> string \<Rightarrow> nat option" where
  "index_of sub [] = (if sub = [] then Some 0 else None)"
| "index_of sub (c # cs) =
     (if prefix sub (c # cs) then Some 0 else map_option Suc (index_of sub cs))"

definition js_includes :: "string \<Rightarrow> string \<Rightarrow> bool" where
  "js_includes s sub = (index_of sub s \<noteq> None)"

text \<open>\<^verbatim>\<open>s.split(sep)\<close>: the pieces between the successive occurrences of \<open>sep\<close>, searched
  from the left without overlap; with the empty separator, the code units one by one.\<close>

function js_split :: "string \<Rightarrow> string \<Rightarrow> string list" where
  "js_split sep s =
     (if sep = [] then map (\<lambda>c. [c]) s
      else case index_of sep s of
             None \<Rightarrow> [s]
           | Some i \<Rightarrow> take i s # js_split sep (drop (i + length sep) s))"
  by pat_completeness auto
termination
proof (relation "measure (\<lambda>(sep, s). length s)")
  show "wf (measure (\<lambda>(sep, s). length s))" by simp
next
  fix sep s :: string and i
  assume sep: "sep \<noteq> []" and found: "index_of sep s = Some i"
  have bound: "index_of sep t = Some j \<Longrightarrow> j + length sep \<le> length t" for t j
  proof (induction t arbitrary: j)
    case Nil
    then show ?case by (simp split: if_splits)
  next
    case (Cons c cs)
    show ?case
    proof (cases "prefix sep (c # cs)")
      case True
      then show ?thesis using Cons.prems prefix_length_le [OF True] by simp
    next
      case False
      then obtain k where "index_of sep cs = Some k" "j = Suc k"
        using Cons.prems by auto
      then show ?thesis using Cons.IH by fastforce
    qed
  qed
  from bound [OF found] sep have "i + length sep \<le> length s" "length sep \<noteq> 0"
    by auto
  then have "length s - (i + length sep) < length s"
    by arith
  then show "((sep, drop (i + length sep) s), (sep, s)) \<in> measure (\<lambda>(sep, s). length s)"
    by simp
qed

declare js_split.simps [simp del]

definition js_whitespace :: "char \<Rightarrow> bool" where
  "js_whitespace c = (of_char c \<in> {9, 10, 11, 12, 13, 32, 160 :: nat})"

definition trim :: "string \<Rightarrow> string" where
  "trim s = rev (dropWhile js_whitespace (rev (dropWhile js_whitespace s)))"

text \<open>\<^verbatim>\<open>xs[i]\<close>: \<^verbatim>\<open>undefined\<close> outside the array.\<close>

definition item_at :: "'t list \<Rightarrow> int \<Rightarrow> 't option" where
  "item_at item index =
     (if 0 \<le> index \<and> index < int (length item) then Some (item ! nat index) else None)"

text \<open>\<^verbatim>\<open>xs.splice(start, 0, x)\<close>: a negative start counts from the end, a start beyond the
  end is the end; nothing is deleted and \<open>x\<close> is inserted at the start position.\<close>

definition splice :: "int \<Rightarrow> 'a \<Rightarrow> 'a list \<Rightarrow> 'a list" where
  "splice start x xs =
     (let len = int (length xs);
          k = (if start < 0 then max (len + start) 0 else min start len)
      in take (nat k) xs @ x # drop (nat k) xs)"

text \<open>The decimal digits of an array index, as \<^verbatim>\<open>`${i}`\<close> prints it.\<close>

definition digit_char :: "nat \<Rightarrow> char" where
  "digit_char d = char_of (48 + d)"

function string_of_nat :: "nat \<Rightarrow> string" where
  "string_of_nat n =
     (if n < 10 then [digit_char n] else string_of_nat (n div 10) @ [digit_char (n mod 10)])"
  by pat_completeness auto
termination
  by (relation "measure id") auto

declare string_of_nat.simps [simp del]

section \<open>The fallback executor\<close>

text \<open>
  \<^verbatim>\<open>fallback(key, item, genFunc)\<close>, lines 111 to 124.  \<open>genFunc\<close> is called with
  \<^verbatim>\<open>undefined\<close> while \<open>index\<close> is negative and with the object \<^verbatim>\<open>{[key]: item[index]}\<close>
  afterwards; it runs in a state \<open>'s\<close> that it may change, and it either returns or throws.
  The \<^verbatim>\<open>do ... while\<close> loop is the recursion on \<open>index\<close>.  The function falls off its end,
  returning \<^verbatim>\<open>undefined\<close>, when the loop condition fails: the result is an option.
\<close>

function fallback_loop ::
  "string \<Rightarrow> 't list \<Rightarrow> ((string \<times> 't option) option \<Rightarrow> 's \<Rightarrow> ('e + 'g) \<times> 's)
     \<Rightarrow> int \<Rightarrow> 's \<Rightarrow> ('e + 'g option) \<times> 's" where
  "fallback_loop key item genFunc index s =
     (case genFunc (if index \<ge> 0 then Some (key, item_at item index) else None) s of
        (Inr resp, s') \<Rightarrow> (Inr (Some resp), s')
      | (Inl err, s') \<Rightarrow>
          (if index + 1 \<ge> int (length item) then (Inl err, s')
           else if index + 1 < int (length item)
                then fallback_loop key item genFunc (index + 1) s'
                else (Inr None, s')))"
  by pat_completeness auto
termination
  by (relation "measure (\<lambda>(key, item, genFunc, index, s). nat (int (length item) - index))") auto

declare fallback_loop.simps [simp del]

definition fallback ::
  "string \<Rightarrow> 't list \<Rightarrow> ((string \<times> 't option) option \<Rightarrow> 's \<Rightarrow> ('e + 'g) \<times> 's)
     \<Rightarrow> 's \<Rightarrow> ('e + 'g option) \<times> 's" where
  "fallback key item genFunc s = fallback_loop key item genFunc (- 1) s"

text \<open>A unit of work without a state of its own, run in the state that records the
  arguments of its invocations, in order.\<close>

definition logged :: "('a \<Rightarrow> 'r) \<Rightarrow> 'a \<Rightarrow> 'a list \<Rightarrow> 'r \<times> 'a list" where
  "logged f a lg = (f a, lg @ [a])"

text \<open>The argument object \<^verbatim>\<open>{[key]: x}\<close> of a substituted attempt.\<close>

definition subst :: "string \<Rightarrow> 't \<Rightarrow> (string \<times> 't option) option" where
  "subst key x = Some (key, Some x)"

text \<open>A unit of work for the examples: the primary and the candidates below 2 are rate
  limited, a candidate \<open>n\<close> from 2 on answers \<open>10 * n\<close>.\<close>

definition flaky :: "(string \<times> nat option) option \<Rightarrow> string + nat" where
  "flaky a = (case a of None \<Rightarrow> Inl ''primary down''
              | Some (k, None) \<Rightarrow> Inl ''no model''
              | Some (k, Some n) \<Rightarrow> if n < 2 then Inl ''rate limited'' else Inr (10 * n))"

section \<open>Data model\<close>

text \<open>
  A conversation turn \<^verbatim>\<open>GeneratePromptObj\<close> has a role and a content that is a string or
  an array of parts; the caller's prompt is a string or an array of turns.  A schema is
  opaque.  The caller's \<^verbatim>\<open>tools\<close> object is the list of its keys.
\<close>

datatype role = RUser | RAssistant | RSystem | RTool

datatype part_type = TText | TImage | TFile

record ContentPart =
  ptype :: part_type
  data :: string
  mimeType :: "string option"

datatype content = Str string | Parts "ContentPart list"

record GeneratePromptObj =
  role :: role
  content :: content

datatype prompt_input = PromptString string | PromptArray "GeneratePromptObj list"

datatype ZodSchema = ZodSchema string

record ContextTool =
  web :: "bool option"

record GenerateParams =
  prompt :: prompt_input
  schema :: "ZodSchema option"
  system :: "string option"
  contextTool :: "ContextTool option"
  reasoning :: "bool option"
  multiLLM :: "bool option"
  stream :: "bool option"
  autoTool :: "bool option"
  temperature :: "rat option"
  topK :: "rat option"
  topP :: "rat option"
  tools :: "string list"

text \<open>
  A model handle is the provider that made it, the name of the model and whether it was
  made with provider settings, as the registry's Gemini model is.  \<open>google_default\<close> is the
  provider that the module imports and \<^verbatim>\<open>decidePreConfig\<close> uses; the other providers are
  the ones \<^verbatim>\<open>createOmiAI\<close> configures.
\<close>

datatype provider = groq | google | openai | anthropic | deepinfra | google_default

datatype LanguageModelV1 = LanguageModel provider string bool

record ModelEntry =
  model_id :: string
  speed :: nat
  smarts :: nat
  context_window :: nat
  file_type_support :: "string list"
  description :: string
  specialty :: "string list"
  model_fallback :: "string option"
  modelProvider :: "LanguageModelV1 option"

text \<open>\<^verbatim>\<open>messageMap\<close>, lines 91 to 109: the turns as the messages of a completion,
  without the image and file parts when \<open>removeMedia\<close> is set.\<close>

record CorePart =
  cp_type :: part_type
  cp_image :: "string option"
  cp_text :: "string option"
  cp_data :: "string option"
  cp_mimeType :: "string option"

datatype core_content = CoreStr string | CoreParts "CorePart list"

record CoreMessage =
  m_content :: core_content
  m_role :: role

definition messageMap :: "GeneratePromptObj list \<Rightarrow> bool \<Rightarrow> CoreMessage list" where
  "messageMap prompts removeMedia =
     map (\<lambda>m. \<lparr> m_content =
                   (case content m of
                      Str s \<Rightarrow> CoreStr s
                    | Parts cs \<Rightarrow>
                        CoreParts
                          (filter (\<lambda>c. if removeMedia then cp_type c \<notin> {TImage, TFile} else True)
                             (map (\<lambda>c. \<lparr> cp_type = ptype c,
                                          cp_image = (if ptype c = TImage then Some (data c) else None),
                                          cp_text = (if ptype c = TText then Some (data c) else None),
                                          cp_data = (if ptype c = TFile then Some (data c) else None),
                                          cp_mimeType = (if ptype c \<noteq> TText then mimeType c else None) \<rparr>)
                                cs))),
                 m_role = role m \<rparr>) prompts"


subsection \<open>The model registry\<close>

definition modelList :: "(string \<times> ModelEntry) list" where
  "modelList =
     [(''gemini-1.5-flash'',
        \<lparr> model_id = ''gemini-1.5-flash'', speed = 3, smarts = 4, context_window = 1000000,
          file_type_support = [''audio'', ''image'', ''video'', ''pdf'', ''text''],
          description = ''Great for most tasks and, general questions and general web search. Great for large context tasks. Also great for all file types.'',
          specialty = [''large-files''], model_fallback = None,
          modelProvider = Some (LanguageModel google ''gemini-1.5-flash'' True) \<rparr>),
      (''gpt-4o'',
        \<lparr> model_id = ''gpt-4o'', speed = 2, smarts = 4, context_window = 128000,
          file_type_support = [''image'', ''text''],
          description = ''Great for highly complex tasks.'',
          specialty = [''general''], model_fallback = None,
          modelProvider = Some (LanguageModel openai ''gpt-4o'' False) \<rparr>),
      (''claude-3-5-sonnet-latest'',
        \<lparr> model_id = ''claude-3-5-sonnet-latest'', speed = 2, smarts = 4, context_window = 200000,
          file_type_support = [''text''],
          description = ''Great for highly complex coding tasks.'',
          specialty = [''code''], model_fallback = None,
          modelProvider = Some (LanguageModel anthropic ''claude-3-5-sonnet-latest'' False) \<rparr>),
      (''llama-3.3-70b-specdec'',
        \<lparr> model_id = ''llama-3.3-70b-specdec'', speed = 5, smarts = 2, context_window = 8192,
          file_type_support = [''text''],
          description = ''Great for simple tasks that require speed and tool use.'',
          specialty = [''small-tasks''], model_fallback = None,
          modelProvider = Some (LanguageModel groq ''llama-3.3-70b-specdec'' False) \<rparr>)]"

text \<open>
  \<^verbatim>\<open>modelList[key]\<close> on the object literal: the entry when \<open>key\<close> is one of its own keys;
  otherwise the property that every object inherits under that name, if there is one, which
  is truthy and has no \<^verbatim>\<open>id\<close>, \<^verbatim>\<open>fallback\<close> or \<^verbatim>\<open>modelProvider\<close>; otherwise
  \<^verbatim>\<open>undefined\<close>.  \<^verbatim>\<open>Object.keys\<close> lists the own keys in the order of the literal.
\<close>

definition object_prototype_keys :: "string list" where
  "object_prototype_keys =
     [''constructor'', ''__defineGetter__'', ''__defineSetter__'', ''hasOwnProperty'',
      ''__lookupGetter__'', ''__lookupSetter__'', ''isPrototypeOf'', ''propertyIsEnumerable'',
      ''toString'', ''valueOf'', ''__proto__'', ''toLocaleString'']"

datatype lookup_result = LUndefined | LOwn ModelEntry | LInherited

definition lookup_model :: "(string \<times> ModelEntry) list \<Rightarrow> string \<Rightarrow> lookup_result" where
  "lookup_model ml key =
     (case map_of ml key of
        Some m \<Rightarrow> LOwn m
      | None \<Rightarrow> if key \<in> set object_prototype_keys then LInherited else LUndefined)"

definition object_keys :: "(string \<times> 'a) list \<Rightarrow> string list" where
  "object_keys obj = map fst obj"


subsection \<open>Outbound calls, their results and the request state\<close>

text \<open>
  The options object of a completion: a property that the source does not write, or writes
  as \<^verbatim>\<open>undefined\<close>, is \<open>None\<close>.  The tools are passed as their names.  The result of a
  completion has the fields that \<^verbatim>\<open>generate\<close> reads; arguments and results of tool
  calls, and structured outputs, are opaque strings.
\<close>

record CallOptions =
  o_model :: "LanguageModelV1 option"
  o_prompt :: "string option"
  o_system :: "string option"
  o_messages :: "CoreMessage list option"
  o_tools :: "string list option"
  o_toolChoice :: "string option"
  o_maxSteps :: "nat option"
  o_temperature :: "rat option"
  o_topK :: "rat option"
  o_topP :: "rat option"
  o_schema :: "ZodSchema option"

definition no_options :: CallOptions where
  "no_options = \<lparr> o_model = None, o_prompt = None, o_system = None, o_messages = None,
      o_tools = None, o_toolChoice = None, o_maxSteps = None, o_temperature = None,
      o_topK = None, o_topP = None, o_schema = None \<rparr>"

record PreConfig =
  pc_model :: string
  pc_reasoning :: bool
  pc_web_search :: bool
  pc_use_tool :: bool

record ToolCall =
  toolName :: string
  tc_args :: string

record Step =
  toolCalls :: "ToolCall list"
  toolResults :: "string list"

record GenerateTextResult =
  r_text :: string
  r_reasoning :: "string option"
  steps :: "Step list"
  experimental_output :: "string option"
  experimental_partialOutputStream :: "string list option"

record SearchItem =
  title :: string
  s_content :: "string option"
  s_description :: "string option"
  snippets :: "string list"
  url :: string

record WebResult =
  wr_title :: string
  wr_content :: "string option"
  wr_snippets :: "string list"
  wr_url :: string

text \<open>The values that the source serialises, and the values of the \<^verbatim>\<open>any\<close>-typed
  fields of a \<^verbatim>\<open>ToolUsed\<close> record.\<close>

datatype js_value =
    RegistryValue "(string \<times> ModelEntry) list"
  | PromptValue GeneratePromptObj
  | WebResultsValue "WebResult list"
  | StringsValue "string list"

datatype any_value =
    SearchResponse "SearchItem list"
  | SearchArgs string bool
  | Opaque string

datatype tool_used_type = tool_call | tool_context_use

record ToolUsed =
  name :: string
  result :: any_value
  args :: any_value
  tu_type :: tool_used_type

record Files =
  f_type :: part_type
  f_data :: string
  f_mimeType :: "string option"

text \<open>
  Every outbound call is recorded with the stage of \<^verbatim>\<open>generate\<close> that issues it.  In the
  environment, \<open>pushed_files\<close> gives the files that the executors of the image-generation
  and text-to-speech tools push onto \<^verbatim>\<open>genFiles\<close> while the library runs a completion
  with tools.
\<close>

datatype stage = Planner | WebSearch | ToolRun | Reasoning | MultiLLM | Final

datatype outbound =
    GenerateObject CallOptions
  | GenerateText CallOptions
  | StreamText CallOptions
  | WebSearchCall string

record env =
  generateObject :: "CallOptions \<Rightarrow> error + PreConfig option"
  generateText :: "CallOptions \<Rightarrow> error + GenerateTextResult"
  streamText :: "CallOptions \<Rightarrow> error + GenerateTextResult"
  web_search :: "string \<Rightarrow> error + SearchItem list"
  ai_scrape :: "string \<Rightarrow> string list \<Rightarrow> error + string"
  vocr :: "string \<Rightarrow> string list \<Rightarrow> error + string"
  speech_to_text :: "string \<Rightarrow> error + string"
  pushed_files :: "CallOptions \<Rightarrow> Files list"
  JSON_stringify :: "js_value \<Rightarrow> string"

record gstate =
  prompts :: "GeneratePromptObj list"
  toolUsed :: "ToolUsed list"
  genFiles :: "Files list"
  calls :: "(stage \<times> outbound) list"

record GenerateResponse =
  resp :: GenerateTextResult
  res_toolUsed :: "ToolUsed list"
  res_files :: "Files list"
  reasoningText :: "string option"
  partialObjectStream :: "string list option"
  object :: "string option"

text \<open>Recording a call; the spread \<^verbatim>\<open>...args\<close> of the fallback executor's argument
  into an options object, which overrides \<^verbatim>\<open>model\<close>; sequencing of two steps, of which
  the second runs only when the first does not throw; \<^verbatim>\<open>xs.join(sep)\<close>.\<close>

definition issue :: "stage \<Rightarrow> outbound \<Rightarrow> gstate \<Rightarrow> gstate" where
  "issue st c s = s\<lparr> calls := calls s @ [(st, c)] \<rparr>"

definition spread_args ::
  "CallOptions \<Rightarrow> (string \<times> LanguageModelV1 option option) option \<Rightarrow> CallOptions" where
  "spread_args opts a =
     (case a of
        None \<Rightarrow> opts
      | Some (key, v) \<Rightarrow>
          if key = ''model''
          then opts\<lparr> o_model := (case v of None \<Rightarrow> None | Some m \<Rightarrow> m) \<rparr>
          else opts)"

definition and_then ::
  "('s \<Rightarrow> ('e + 'a) \<times> 's) \<Rightarrow> ('a \<Rightarrow> 's \<Rightarrow> ('e + 'b) \<times> 's) \<Rightarrow> 's \<Rightarrow> ('e + 'b) \<times> 's" where
  "and_then m f s = (case m s of (Inl e, s') \<Rightarrow> (Inl e, s') | (Inr a, s') \<Rightarrow> f a s')"

fun join :: "string \<Rightarrow> string list \<Rightarrow> string" where
  "join sep [] = []"
| "join sep [x] = x"
| "join sep (x # y # ys) = x @ sep @ join sep (y # ys)"

subsection \<open>File references and the tools that resolve them\<close>

text \<open>
  Lines 319 to 322: the non-text parts of the latest turn, each with the reference
  \<^verbatim>\<open>https://onellmref.com/<index>\<close>.  Lines 354 to 405: the executors of \<^verbatim>\<open>ai_scraper\<close>,
  \<^verbatim>\<open>ocr\<close> and \<^verbatim>\<open>speech_to_text\<close> pass \<^verbatim>\<open>url.includes("https://onellmref.com") ?
  latestPromptFiles.find((f) => f.ref == url)?.data || url : url\<close> to the capability.
\<close>

record PromptFile =
  ref :: string
  file_part :: ContentPart

definition latestPromptFiles :: "content \<Rightarrow> PromptFile list" where
  "latestPromptFiles lastPromptContent =
     (case lastPromptContent of
        Str _ \<Rightarrow> []
      | Parts cs \<Rightarrow>
          map (\<lambda>(i, f). \<lparr> ref = ''https://onellmref.com/'' @ string_of_nat i, file_part = f \<rparr>)
            (enumerate 0 (filter (\<lambda>c. ptype c \<noteq> TText) cs)))"

definition resolve_url :: "PromptFile list \<Rightarrow> string \<Rightarrow> string" where
  "resolve_url files u =
     (if js_includes u ''https://onellmref.com''
      then (case find (\<lambda>f. ref f = u) files of
              None \<Rightarrow> u
            | Some f \<Rightarrow> if data (file_part f) \<noteq> [] then data (file_part f) else u)
      else u)"

definition ai_scraper_execute :: "env \<Rightarrow> PromptFile list \<Rightarrow> string \<Rightarrow> string list \<Rightarrow> error + string" where
  "ai_scraper_execute env files u fs = ai_scrape env (resolve_url files u) fs"

definition ocr_execute :: "env \<Rightarrow> PromptFile list \<Rightarrow> string \<Rightarrow> string list \<Rightarrow> error + string" where
  "ocr_execute env files u fs = vocr env (resolve_url files u) fs"

definition speech_to_text_execute :: "env \<Rightarrow> PromptFile list \<Rightarrow> string \<Rightarrow> error + string" where
  "speech_to_text_execute env files u = speech_to_text env (resolve_url files u)"

definition builtin_tools :: "string list" where
  "builtin_tools = [''current_datetime'', ''ai_scraper'', ''ocr'', ''ai_image_generation'',
                    ''speech_to_text'', ''text_to_speech'']"

definition allTools :: "string list \<Rightarrow> string list" where
  "allTools tls = tls @ filter (\<lambda>k. k \<notin> set tls) builtin_tools"


section \<open>The planner: \<^verbatim>\<open>decidePreConfig\<close>\<close>

text \<open>
  \<^verbatim>\<open>decidePreConfig\<close>, lines 137 to 173.  The prompt is built before the fallback executor
  runs.  The unit of work reads the primary model from the registry and calls
  \<^verbatim>\<open>generateObject\<close> with the temperature 0; the substitute is the module-level Gemini
  model.  A result without an object throws.
\<close>

definition provider_of :: "lookup_result \<Rightarrow> LanguageModelV1 option" where
  "provider_of lk = (case lk of LOwn m \<Rightarrow> modelProvider m | _ \<Rightarrow> None)"

definition modelListForLLM :: "(string \<times> ModelEntry) list \<Rightarrow> (string \<times> ModelEntry) list" where
  "modelListForLLM ml = map (\<lambda>(k, m). (k, m\<lparr> modelProvider := None \<rparr>)) ml"

definition preConfigSchema :: ZodSchema where
  "preConfigSchema = ZodSchema ''preConfigSchema''"

definition preConfigPrompt ::
  "env \<Rightarrow> (string \<times> ModelEntry) list \<Rightarrow> string list \<Rightarrow> GeneratePromptObj list \<Rightarrow> string" where
  "preConfigPrompt ev ml tls ps =
     ''List of models:'' @ JSON_stringify ev (RegistryValue (modelListForLLM ml))
       @ [CHR 0x0A] @ ''List of tools:'' @ join '','' (rev tls)
       @ [CHR 0x0A] @ ''Prompt: ''
       @ (case item_at ps (int (length ps) - 1) of
            None \<Rightarrow> ''undefined''
          | Some q \<Rightarrow> JSON_stringify ev (PromptValue q))"

definition planner_call ::
  "env \<Rightarrow> (string \<times> ModelEntry) list \<Rightarrow> string
     \<Rightarrow> (string \<times> LanguageModelV1 option option) option \<Rightarrow> gstate
     \<Rightarrow> (error + PreConfig option) \<times> gstate" where
  "planner_call ev ml pr a s =
     (case lookup_model ml ''llama-3.3-70b-specdec'' of
        LUndefined \<Rightarrow> (Inl (TypeError ''reading modelProvider of undefined''), s)
      | lk \<Rightarrow>
          (let opts = spread_args (no_options\<lparr> o_model := provider_of lk, o_prompt := Some pr,
                          o_schema := Some preConfigSchema, o_temperature := Some 0 \<rparr>) a
           in (generateObject ev opts, issue Planner (GenerateObject opts) s)))"

definition decidePreConfig ::
  "env \<Rightarrow> (string \<times> ModelEntry) list \<Rightarrow> string list \<Rightarrow> GeneratePromptObj list \<Rightarrow> gstate
     \<Rightarrow> (error + PreConfig) \<times> gstate" where
  "decidePreConfig ev ml tls ps s =
     (case fallback ''model'' [Some (LanguageModel google_default ''gemini-1.5-flash-8b'' False)]
             (planner_call ev ml (preConfigPrompt ev ml tls ps)) s of
        (Inl e, s') \<Rightarrow> (Inl e, s')
      | (Inr r, s') \<Rightarrow>
          (case (case r of None \<Rightarrow> None | Some obj \<Rightarrow> obj) of
             None \<Rightarrow> (Inl (Error ''Failed to decide preConfigModel''), s')
           | Some preConfig \<Rightarrow> (Inr preConfig, s')))"

section \<open>The stages of \<^verbatim>\<open>generate\<close>\<close>

text \<open>The defaults of the destructured parameters, lines 302 and 303: \<^verbatim>\<open>autoTool = true\<close>
  and \<^verbatim>\<open>temperature = 0\<close>, which apply when the caller leaves the property undefined.\<close>

definition temperature_of :: "GenerateParams \<Rightarrow> rat" where
  "temperature_of p = (case temperature p of None \<Rightarrow> 0 | Some t \<Rightarrow> t)"

definition autoTool_of :: "GenerateParams \<Rightarrow> bool" where
  "autoTool_of p = (case autoTool p of None \<Rightarrow> True | Some b \<Rightarrow> b)"

subsection \<open>Web search, lines 430 to 461\<close>

definition web_flag :: "GenerateParams \<Rightarrow> bool option" where
  "web_flag p = (case contextTool p of None \<Rightarrow> None | Some ct \<Rightarrow> web ct)"

definition web_enabled :: "GenerateParams \<Rightarrow> PreConfig \<Rightarrow> bool" where
  "web_enabled p pre =
     ((truthy_bool (web_flag p) \<or> pc_web_search pre) \<and> web_flag p \<noteq> Some False)"

definition webSearchResultMap :: "SearchItem list \<Rightarrow> WebResult list" where
  "webSearchResultMap rs =
     take 3 (map (\<lambda>c. \<lparr> wr_title = title c, wr_content = or_else (s_content c) (s_description c),
                         wr_snippets = snippets c, wr_url = url c \<rparr>) rs)"

definition web_stage ::
  "env \<Rightarrow> GenerateParams \<Rightarrow> PreConfig \<Rightarrow> string option \<Rightarrow> gstate \<Rightarrow> (error + unit) \<times> gstate" where
  "web_stage ev p pre latestTextPrompt s =
     (case latestTextPrompt of
        None \<Rightarrow> (Inr (), s)
      | Some q \<Rightarrow>
          if q \<noteq> [] \<and> web_enabled p pre
          then (let s1 = issue WebSearch (WebSearchCall q) s
                in case web_search ev q of
                     Inl e \<Rightarrow> (Inl e, s1)
                   | Inr searchResult \<Rightarrow>
                       (Inr (),
                        s1\<lparr> toolUsed := toolUsed s1 @
                               [\<lparr> name = ''web_search'', result = SearchResponse searchResult,
                                  args = SearchArgs q False, tu_type = tool_context_use \<rparr>],
                            prompts := splice (int (length (prompts s1)) - 1)
                               \<lparr> role = RUser,
                                 content = Str (''Web search result: '' @
                                   JSON_stringify ev (WebResultsValue (webSearchResultMap searchResult))) \<rparr>
                               (prompts s1) \<rparr>))
          else (Inr (), s))"

subsection \<open>Tool-calling sub-run, lines 463 to 509\<close>

definition tool_prompt :: "env \<Rightarrow> string option \<Rightarrow> PromptFile list \<Rightarrow> string option" where
  "tool_prompt ev latestTextPrompt files =
     (if truthy latestTextPrompt
      then Some (interpolate latestTextPrompt @ [CHR 0x0A] @ ''files: '' @
                 JSON_stringify ev (StringsValue (map ref files)))
      else latestTextPrompt)"

definition tool_call_run ::
  "env \<Rightarrow> GenerateParams \<Rightarrow> string list \<Rightarrow> string option
     \<Rightarrow> (string \<times> LanguageModelV1 option option) option \<Rightarrow> gstate
     \<Rightarrow> (error + GenerateTextResult) \<times> gstate" where
  "tool_call_run ev p tls pr a s =
     (let opts = spread_args (no_options\<lparr> o_model := Some (LanguageModel openai ''gpt-4o-mini'' False),
                     o_prompt := pr, o_system := system p, o_tools := Some tls,
                     o_toolChoice := Some ''auto'', o_maxSteps := Some 5,
                     o_temperature := Some (temperature_of p), o_topK := topK p,
                     o_topP := topP p \<rparr>) a
      in (generateText ev opts,
          (issue ToolRun (GenerateText opts) s)\<lparr> genFiles := genFiles s @ pushed_files ev opts \<rparr>))"

definition step_tool_calls :: "Step \<Rightarrow> error + (ToolCall \<times> string) list" where
  "step_tool_calls st =
     (if length (toolResults st) < length (toolCalls st)
      then Inl (TypeError ''reading result of undefined'')
      else Inr (zip (toolCalls st) (toolResults st)))"

fun all_tool_calls :: "Step list \<Rightarrow> error + (ToolCall \<times> string) list" where
  "all_tool_calls [] = Inr []"
| "all_tool_calls (st # rest) =
     (case step_tool_calls st of
        Inl e \<Rightarrow> Inl e
      | Inr xs \<Rightarrow> (case all_tool_calls rest of Inl e \<Rightarrow> Inl e | Inr ys \<Rightarrow> Inr (xs @ ys)))"

definition tool_stage ::
  "env \<Rightarrow> GenerateParams \<Rightarrow> PreConfig \<Rightarrow> string list \<Rightarrow> string option \<Rightarrow> PromptFile list
     \<Rightarrow> gstate \<Rightarrow> (error + unit) \<times> gstate" where
  "tool_stage ev p pre tls latestTextPrompt files s =
     (if pc_use_tool pre \<and> autoTool_of p
      then (case fallback ''model'' [Some (LanguageModel groq ''llama-3.3-70b-versatile'' False)]
                   (tool_call_run ev p tls (tool_prompt ev latestTextPrompt files)) s of
              (Inl e, s1) \<Rightarrow> (Inl e, s1)
            | (Inr toolResult, s1) \<Rightarrow>
                (let toolText = map_option r_text toolResult
                 in case (case toolResult of None \<Rightarrow> Inr [] | Some r \<Rightarrow> all_tool_calls (steps r)) of
                      Inl e \<Rightarrow> (Inl e, s1)
                    | Inr allToolCalls \<Rightarrow>
                        (Inr (),
                         s1\<lparr> toolUsed := toolUsed s1 @
                                map (\<lambda>(t, r). \<lparr> name = toolName t, result = Opaque r,
                                                args = Opaque (tc_args t), tu_type = tool_call \<rparr>)
                                  allToolCalls,
                             prompts := splice (int (length (prompts s1)))
                                \<lparr> role = RUser,
                                  content = Str (''Tool result: '' @ interpolate toolText) \<rparr>
                                (prompts s1) \<rparr>)))
      else (Inr (), s))"

subsection \<open>Reasoning sub-run, lines 511 to 540\<close>

definition reasoning_enabled :: "GenerateParams \<Rightarrow> PreConfig \<Rightarrow> bool" where
  "reasoning_enabled p pre =
     ((truthy_bool (reasoning p) \<or> pc_reasoning pre) \<and> reasoning p \<noteq> Some False)"

definition think_extract :: "string option \<Rightarrow> error + string option" where
  "think_extract t =
     (case t of
        None \<Rightarrow> Inr None
      | Some x \<Rightarrow>
          if js_includes x ''<think>''
          then (case item_at (js_split ''<think>'' x) 1 of
                  None \<Rightarrow> Inl (TypeError ''reading split of undefined'')
                | Some seg \<Rightarrow> Inr (map_option trim (item_at (js_split ''</think>'' seg) 0)))
          else Inr (Some x))"

definition reasoning_call ::
  "env \<Rightarrow> GenerateParams \<Rightarrow> (string \<times> LanguageModelV1 option option) option \<Rightarrow> gstate
     \<Rightarrow> (error + GenerateTextResult) \<times> gstate" where
  "reasoning_call ev p a s =
     (let opts = spread_args (no_options\<lparr> o_model := Some (LanguageModel openai ''o3-mini'' False),
                     o_system := system p, o_messages := Some (messageMap (prompts s) True),
                     o_temperature := Some (temperature_of p), o_topK := topK p,
                     o_topP := topP p \<rparr>) a
      in (generateText ev opts, issue Reasoning (GenerateText opts) s))"

definition raw_reasoning :: "GenerateTextResult option \<Rightarrow> string option" where
  "raw_reasoning reasoningResult =
     or_else (case reasoningResult of None \<Rightarrow> None | Some r \<Rightarrow> r_reasoning r)
             (map_option r_text reasoningResult)"

definition reasoning_stage ::
  "env \<Rightarrow> GenerateParams \<Rightarrow> PreConfig \<Rightarrow> gstate \<Rightarrow> (error + string option) \<times> gstate" where
  "reasoning_stage ev p pre s =
     (if reasoning_enabled p pre
      then (case fallback ''model'' [Some (LanguageModel deepinfra ''deepseek-ai/DeepSeek-R1'' False)]
                   (reasoning_call ev p) s of
              (Inl e, s1) \<Rightarrow> (Inl e, s1)
            | (Inr reasoningResult, s1) \<Rightarrow>
                (case think_extract (raw_reasoning reasoningResult) of
                   Inl e \<Rightarrow> (Inl e, s1)
                 | Inr rt \<Rightarrow>
                     (Inr rt,
                      s1\<lparr> prompts := splice (int (length (prompts s1)) - 1)
                             \<lparr> role = RUser, content = Str (''Context: '' @ interpolate rt) \<rparr>
                             (prompts s1) \<rparr>)))
      else (Inr None, s))"

subsection \<open>Multi-model cross-check, lines 544 to 564\<close>

definition multi_options :: "GenerateParams \<Rightarrow> gstate \<Rightarrow> LanguageModelV1 option \<Rightarrow> CallOptions" where
  "multi_options p s mdl =
     no_options\<lparr> o_model := mdl, o_system := system p,
                 o_messages := Some (messageMap (prompts s) True),
                 o_temperature := Some (temperature_of p), o_topK := topK p, o_topP := topP p \<rparr>"

text \<open>\<^verbatim>\<open>Promise.allSettled\<close> gives one outcome per call, in the order of the calls; the
  fulfilled ones are filtered out and their values taken.\<close>

definition fulfilled :: "('e + 'a) list \<Rightarrow> 'a list" where
  "fulfilled settled = map projr (filter (\<lambda>r. \<not> isl r) settled)"

definition multi_stage ::
  "env \<Rightarrow> GenerateParams \<Rightarrow> (string \<times> ModelEntry) list \<Rightarrow> gstate \<Rightarrow> (error + unit) \<times> gstate" where
  "multi_stage ev p ml s =
     (if truthy_bool (multiLLM p)
      then (let requests = map (\<lambda>m. multi_options p s (provider_of (lookup_model ml m)))
                               (object_keys ml);
                multiLLMPromiseResult = map (generateText ev) requests;
                multiLLMResults = fulfilled multiLLMPromiseResult;
                s1 = s\<lparr> calls := calls s @ map (\<lambda>opts. (MultiLLM, GenerateText opts)) requests \<rparr>
            in (Inr (),
                s1\<lparr> prompts := splice (int (length (prompts s1)) - 1)
                       \<lparr> role = RUser,
                         content = Parts [\<lparr> ptype = TText,
                           data = ''Context from multiple LLMs: '' @
                             JSON_stringify ev (StringsValue (map r_text multiLLMResults)),
                           mimeType = None \<rparr>] \<rparr>
                       (prompts s1) \<rparr>))
      else (Inr (), s))"

subsection \<open>Final generation, lines 566 to 608\<close>

definition final_fallback_model ::
  "(string \<times> ModelEntry) list \<Rightarrow> lookup_result \<Rightarrow> error + LanguageModelV1 option" where
  "final_fallback_model ml modelConfig =
     (case modelConfig of
        LUndefined \<Rightarrow> Inl (TypeError ''reading id of undefined'')
      | LInherited \<Rightarrow> Inr (Some (LanguageModel openai ''gpt-4o'' False))
      | LOwn m \<Rightarrow>
          Inr (if truthy (model_fallback m)
                  \<and> lookup_model ml (interpolate (model_fallback m)) \<noteq> LUndefined
               then provider_of (lookup_model ml (interpolate (model_fallback m)))
               else if model_id m = ''gpt-4o''
                    then Some (LanguageModel google ''gemini-1.5-flash'' False)
                    else Some (LanguageModel openai ''gpt-4o'' False)))"

definition final_model :: "lookup_result \<Rightarrow> string option \<Rightarrow> error + LanguageModelV1 option" where
  "final_model modelConfig rt =
     (if truthy rt
      then (case modelConfig of
              LUndefined \<Rightarrow> Inl (TypeError ''reading id of undefined'')
            | LInherited \<Rightarrow> Inl (TypeError ''reading includes of undefined'')
            | LOwn m \<Rightarrow> Inr (if js_includes (model_id m) ''llama-3.3''
                              then Some (LanguageModel google ''gemini-1.5-flash'' False)
                              else modelProvider m))
      else (case modelConfig of
              LUndefined \<Rightarrow> Inl (TypeError ''reading modelProvider of undefined'')
            | LInherited \<Rightarrow> Inr None
            | LOwn m \<Rightarrow> Inr (modelProvider m)))"

definition final_call ::
  "env \<Rightarrow> GenerateParams \<Rightarrow> lookup_result \<Rightarrow> string option
     \<Rightarrow> (string \<times> LanguageModelV1 option option) option \<Rightarrow> gstate
     \<Rightarrow> (error + GenerateTextResult) \<times> gstate" where
  "final_call ev p modelConfig rt a s =
     (case final_model modelConfig rt of
        Inl e \<Rightarrow> (Inl e, s)
      | Inr mdl \<Rightarrow>
          (let opts = spread_args (no_options\<lparr> o_model := mdl, o_system := system p,
                          o_messages := Some (messageMap (prompts s) False),
                          o_schema := schema p, o_temperature := Some (temperature_of p),
                          o_topK := topK p, o_topP := topP p \<rparr>) a
           in if truthy_bool (stream p)
              then (streamText ev opts, issue Final (StreamText opts) s)
              else (generateText ev opts, issue Final (GenerateText opts) s)))"

definition final_stage ::
  "env \<Rightarrow> GenerateParams \<Rightarrow> (string \<times> ModelEntry) list \<Rightarrow> lookup_result \<Rightarrow> string option
     \<Rightarrow> gstate \<Rightarrow> (error + GenerateResponse) \<times> gstate" where
  "final_stage ev p ml modelConfig rt s =
     (case final_fallback_model ml modelConfig of
        Inl e \<Rightarrow> (Inl e, s)
      | Inr fb \<Rightarrow>
          (case fallback ''model'' [fb] (final_call ev p modelConfig rt) s of
             (Inl e, s1) \<Rightarrow> (Inl e, s1)
           | (Inr None, s1) \<Rightarrow> (Inl (TypeError ''setting toolUsed of undefined''), s1)
           | (Inr (Some llmResp), s1) \<Rightarrow>
               (Inr \<lparr> resp = llmResp, res_toolUsed = toolUsed s1, res_files = genFiles s1,
                      reasoningText = (if truthy rt then rt else None),
                      partialObjectStream =
                        (if schema p \<noteq> None \<and> truthy_bool (stream p)
                         then experimental_partialOutputStream llmResp else None),
                      object =
                        (if schema p \<noteq> None \<and> \<not> truthy_bool (stream p)
                         then experimental_output llmResp else None) \<rparr>,
                s1)))"

section \<open>\<^verbatim>\<open>generate\<close>, lines 294 to 612\<close>

definition initial_state :: "GeneratePromptObj list \<Rightarrow> gstate" where
  "initial_state ps = \<lparr> prompts = ps, toolUsed = [], genFiles = [], calls = [] \<rparr>"

definition latestTextPrompt_of :: "content \<Rightarrow> string option" where
  "latestTextPrompt_of lastPromptContent =
     (case lastPromptContent of
        Str str \<Rightarrow> Some str
      | Parts cs \<Rightarrow> map_option data (find (\<lambda>c. ptype c = TText) cs))"

definition prompts_of :: "GenerateParams \<Rightarrow> GeneratePromptObj list" where
  "prompts_of p =
     (case prompt p of
        PromptArray a \<Rightarrow> a
      | PromptString str \<Rightarrow> [\<lparr> role = RUser, content = Str str \<rparr>])"

text \<open>The four augmentation stages in their order; the value is \<^verbatim>\<open>reasoningText\<close>.\<close>

definition augment ::
  "env \<Rightarrow> GenerateParams \<Rightarrow> PreConfig \<Rightarrow> string option \<Rightarrow> PromptFile list \<Rightarrow> string list
     \<Rightarrow> gstate \<Rightarrow> (error + string option) \<times> gstate" where
  "augment ev p preConfigModel latestTextPrompt files tls =
     and_then (web_stage ev p preConfigModel latestTextPrompt) (\<lambda>_.
     and_then (tool_stage ev p preConfigModel tls latestTextPrompt files) (\<lambda>_.
     and_then (reasoning_stage ev p preConfigModel) (\<lambda>rt.
     and_then (multi_stage ev p modelList) (\<lambda>_ s. (Inr rt, s)))))"

definition generate :: "env \<Rightarrow> GenerateParams \<Rightarrow> (error + GenerateResponse) \<times> gstate" where
  "generate ev p =
     (let ps = prompts_of p
      in case item_at ps (int (length ps) - 1) of
           None \<Rightarrow> (Inl (TypeError ''reading content of undefined''), initial_state ps)
         | Some lastPrompt \<Rightarrow>
             (let lastPromptContent = content lastPrompt;
                  files = latestPromptFiles lastPromptContent;
                  tls = allTools (tools p);
                  latestTextPrompt = latestTextPrompt_of lastPromptContent
              in and_then (decidePreConfig ev modelList tls ps) (\<lambda>preConfigModel.
                 and_then (augment ev p preConfigModel latestTextPrompt files tls) (\<lambda>rt.
                 final_stage ev p modelList
                   (lookup_model modelList (pc_model preConfigModel)) rt))
                 (initial_state ps)))"

section \<open>Observations on a run\<close>

text \<open>The sampling temperature an outbound call carries, whether a stage issued any call,
  and the predicates on the call log that the proofs carry through the stages.\<close>

definition call_temperature :: "outbound \<Rightarrow> rat option" where
  "call_temperature c =
     (case c of
        GenerateObject opts \<Rightarrow> o_temperature opts
      | GenerateText opts \<Rightarrow> o_temperature opts
      | StreamText opts \<Rightarrow> o_temperature opts
      | WebSearchCall q \<Rightarrow> None)"

definition sent_messages :: "outbound \<Rightarrow> CoreMessage list option" where
  "sent_messages c =
     (case c of
        GenerateObject opts \<Rightarrow> o_messages opts
      | GenerateText opts \<Rightarrow> o_messages opts
      | StreamText opts \<Rightarrow> o_messages opts
      | WebSearchCall q \<Rightarrow> None)"

definition sent_model :: "outbound \<Rightarrow> LanguageModelV1 option" where
  "sent_model c =
     (case c of
        GenerateObject opts \<Rightarrow> o_model opts
      | GenerateText opts \<Rightarrow> o_model opts
      | StreamText opts \<Rightarrow> o_model opts
      | WebSearchCall q \<Rightarrow> None)"

text \<open>Summaries of the call log: the stage of each call, with the model it names or
  with the messages it sends, and whether it is a streamed completion.\<close>

definition stages_called :: "gstate \<Rightarrow> stage list" where
  "stages_called s = map fst (calls s)"

definition models_called :: "gstate \<Rightarrow> (stage \<times> LanguageModelV1 option) list" where
  "models_called s = map (\<lambda>(st, c). (st, sent_model c)) (calls s)"

definition messages_sent :: "gstate \<Rightarrow> (stage \<times> CoreMessage list option) list" where
  "messages_sent s = map (\<lambda>(st, c). (st, sent_messages c)) (calls s)"

definition streamed :: "outbound \<Rightarrow> bool" where
  "streamed c = (case c of StreamText opts \<Rightarrow> True | _ \<Rightarrow> False)"

definition result_text :: "error + GenerateResponse \<Rightarrow> error + string" where
  "result_text r = (case r of Inl e \<Rightarrow> Inl e | Inr res \<Rightarrow> Inr (r_text (resp res)))"

definition stage_ran :: "(gstate \<Rightarrow> 'r \<times> gstate) \<Rightarrow> gstate \<Rightarrow> bool" where
  "stage_ran f s = (calls (snd (f s)) \<noteq> calls s)"

definition tagged :: "GenerateParams \<Rightarrow> stage \<times> outbound \<Rightarrow> bool" where
  "tagged p sc =
     (case snd sc of
        GenerateObject opts \<Rightarrow> fst sc = Planner
      | WebSearchCall q \<Rightarrow> fst sc = WebSearch
      | GenerateText opts \<Rightarrow>
          fst sc \<in> {ToolRun, Reasoning, MultiLLM, Final}
          \<and> o_temperature opts = Some (temperature_of p)
      | StreamText opts \<Rightarrow> fst sc = Final \<and> o_temperature opts = Some (temperature_of p))"

definition adds :: "(stage \<times> outbound \<Rightarrow> bool) \<Rightarrow> gstate \<Rightarrow> gstate \<Rightarrow> bool" where
  "adds P s s' = (\<exists>ext. calls s' = calls s @ ext \<and> list_all P ext)"

section \<open>A sample environment\<close>

text \<open>
  The environment of the examples.  The planner answers with a fixed decision.  A completion
  without a model is rejected, every Anthropic model is overloaded, \<^verbatim>\<open>o3-mini\<close> answers
  with an empty thinking span and every other model answers with its own name.  The
  serialiser prints an array of strings and abbreviates the other values.
\<close>

definition answer :: "string \<Rightarrow> GenerateTextResult" where
  "answer t = \<lparr> r_text = t, r_reasoning = None, steps = [], experimental_output = None,
                experimental_partialOutputStream = None \<rparr>"

definition plain_request :: "string \<Rightarrow> GenerateParams" where
  "plain_request str =
     \<lparr> prompt = PromptString str, schema = None, system = None, contextTool = None,
       reasoning = None, multiLLM = None, stream = None, autoTool = None, temperature = None,
       topK = None, topP = None, tools = [] \<rparr>"

definition quoted :: "string \<Rightarrow> string" where
  "quoted x = [CHR 0x22] @ x @ [CHR 0x22]"

definition quoted_list :: "string list \<Rightarrow> string" where
  "quoted_list xs = ''['' @ join '','' (map quoted xs) @ '']''"

definition sample_stringify :: "js_value \<Rightarrow> string" where
  "sample_stringify v =
     (case v of
        StringsValue xs \<Rightarrow> quoted_list xs
      | RegistryValue ml \<Rightarrow> ''{models}''
      | PromptValue q \<Rightarrow> ''{prompt}''
      | WebResultsValue rs \<Rightarrow> ''[results]'')"

definition sample_generate :: "CallOptions \<Rightarrow> error + GenerateTextResult" where
  "sample_generate opts =
     (case o_model opts of
        None \<Rightarrow> Inl (TypeError ''model is undefined'')
      | Some (LanguageModel pr nm st) \<Rightarrow>
          if pr = anthropic then Inl (Rejected ''overloaded'')
          else if nm = ''o3-mini'' then Inr (answer ''<think></think>'')
          else Inr (answer nm))"

definition sample_env :: "PreConfig \<Rightarrow> (string \<Rightarrow> error + SearchItem list) \<Rightarrow> env" where
  "sample_env pre search =
     \<lparr> generateObject = (\<lambda>opts. Inr (Some pre)),
       generateText = sample_generate,
       streamText = sample_generate,
       web_search = search,
       ai_scrape = (\<lambda>u fs. Inr u),
       vocr = (\<lambda>u fs. Inr u),
       speech_to_text = (\<lambda>u. Inr u),
       pushed_files = (\<lambda>opts. []),
       JSON_stringify = sample_stringify \<rparr>"

definition plan :: "string \<Rightarrow> bool \<Rightarrow> bool \<Rightarrow> bool \<Rightarrow> PreConfig" where
  "plan m r w t = \<lparr> pc_model = m, pc_reasoning = r, pc_web_search = w, pc_use_tool = t \<rparr>"

definition no_results :: "string \<Rightarrow> error + SearchItem list" where
  "no_results q = Inr []"

definition search_down :: "string \<Rightarrow> error + SearchItem list" where
  "search_down q = Inl (Rejected ''search down'')"

text \<open>Three latest turns: a question about an attached image, an image alone, and an
  image part whose data is the empty string.\<close>

definition receipt_turn :: content where
  "receipt_turn =
     Parts [\<lparr> ptype = TText, data = ''Extract the total price'', mimeType = None \<rparr>,
            \<lparr> ptype = TImage, data = ''https://example.com/receipt.jpg'',
              mimeType = Some ''image/jpg'' \<rparr>]"

definition image_turn :: content where
  "image_turn =
     Parts [\<lparr> ptype = TImage, data = ''https://example.com/receipt.jpg'',
              mimeType = Some ''image/jpg'' \<rparr>]"

definition blank_turn :: content where
  "blank_turn = Parts [\<lparr> ptype = TImage, data = [], mimeType = Some ''image/png'' \<rparr>]"

definition turn_request :: "content \<Rightarrow> GenerateParams" where
  "turn_request c = (plain_request [])\<lparr> prompt := PromptArray [\<lparr> role = RUser, content = c \<rparr>] \<rparr>"

text \<open>An answer that comes with a reasoning trace, and a latest turn whose first text part
  is empty and whose second text part is a question.\<close>

definition traced_answer :: "string \<Rightarrow> string \<Rightarrow> GenerateTextResult" where
  "traced_answer tr t = (answer t)\<lparr> r_reasoning := Some tr \<rparr>"

definition two_texts_turn :: content where
  "two_texts_turn =
     Parts [\<lparr> ptype = TText, data = [], mimeType = None \<rparr>,
            \<lparr> ptype = TText, data = ''who won?'', mimeType = None \<rparr>]"

section \<open>Properties of the fallback executor\<close>

text \<open>The executor never falls off the end of its loop: it returns a result of the unit of
  work or throws.\<close>

lemma fallback_loop_defined: "fst (fallback_loop key item g i s) \<noteq> Inr None"
proof (induction "nat (int (length item) - i)" arbitrary: i s rule: less_induct)
  case less
  let ?a = "if i \<ge> 0 then Some (key, item_at item i) else None"
  obtain r s' where g: "g ?a s = (r, s')" by (cases "g ?a s") auto
  show ?case
  proof (cases r)
    case (Inr v)
    then show ?thesis using g by (subst fallback_loop.simps) simp
  next
    case (Inl e)
    show ?thesis
    proof (cases "i + 1 \<ge> int (length item)")
      case True
      then show ?thesis using g Inl by (subst fallback_loop.simps) simp
    next
      case False
      then have "nat (int (length item) - (i + 1)) < nat (int (length item) - i)" by simp
      from less.hyps[OF this] show ?thesis
        using g Inl False by (subst fallback_loop.simps) simp
    qed
  qed
qed

lemma fallback_defined: "fst (fallback key item g s) \<noteq> Inr None"
  unfolding fallback_def by (rule fallback_loop_defined)

lemma loop_success:
  "i \<le> k \<Longrightarrow> k < length item \<Longrightarrow>
   (\<forall>j. i \<le> j \<and> j < k \<longrightarrow> isl (f (subst key (item ! j)))) \<Longrightarrow>
   f (subst key (item ! k)) = Inr r \<Longrightarrow>
   fallback_loop key item (logged f) (int i) lg
     = (Inr (Some r), lg @ map (subst key) (take (Suc k - i) (drop i item)))"
proof (induction "k - i" arbitrary: i lg)
  case 0
  then have ik: "i = k" by simp
  have "take (Suc 0) (drop k item) = [item ! k]"
    using 0 by (metis Cons_nth_drop_Suc take0 take_Suc_Cons)
  then show ?case using 0 ik
    by (subst fallback_loop.simps) (simp add: logged_def item_at_def subst_def)
next
  case (Suc n)
  then have lt: "i < k" "i < length item" "Suc i < length item \<or> Suc i = length item"
    by auto
  from Suc lt obtain e where e: "f (subst key (item ! i)) = Inl e"
    by (metis isl_def le_refl)
  have IH: "fallback_loop key item (logged f) (int (Suc i)) (lg @ [subst key (item ! i)])
     = (Inr (Some r), (lg @ [subst key (item ! i)])
          @ map (subst key) (take (Suc k - Suc i) (drop (Suc i) item)))"
    using Suc by (intro Suc.hyps(1)) auto
  have tk: "take (Suc k - i) (drop i item)
              = item ! i # take (Suc k - Suc i) (drop (Suc i) item)"
    using lt by (metis Cons_nth_drop_Suc Suc_diff_le diff_Suc_Suc take_Suc_Cons less_imp_le)
  show ?case
    using e lt Suc.prems IH
    by (subst fallback_loop.simps) (simp add: logged_def item_at_def subst_def tk add.commute)
qed

lemma loop_exhausted:
  "i < length item \<Longrightarrow>
   (\<forall>j. i \<le> j \<and> j < length item \<longrightarrow> isl (f (subst key (item ! j)))) \<Longrightarrow>
   fallback_loop key item (logged f) (int i) lg
     = (Inl (projl (f (subst key (last item)))), lg @ map (subst key) (drop i item))"
proof (induction "length item - i" arbitrary: i lg)
  case 0
  then show ?case by simp
next
  case (Suc n)
  from Suc.prems obtain e where e: "f (subst key (item ! i)) = Inl e"
    by (metis isl_def le_refl)
  show ?case
  proof (cases "Suc i = length item")
    case True
    then have "drop i item = [item ! i]" "last item = item ! i"
      using Suc.prems(1)
      by (metis Cons_nth_drop_Suc drop_all le_refl,
          metis diff_Suc_1 last_conv_nth length_0_conv less_nat_zero_code)
    then show ?thesis using e True Suc.prems(1)
      by (subst fallback_loop.simps) (simp add: logged_def item_at_def subst_def)
  next
    case False
    then have lt: "Suc i < length item" using Suc.prems(1) by simp
    have IH: "fallback_loop key item (logged f) (int (Suc i)) (lg @ [subst key (item ! i)])
       = (Inl (projl (f (subst key (last item)))),
          (lg @ [subst key (item ! i)]) @ map (subst key) (drop (Suc i) item))"
      using Suc lt by (intro Suc.hyps(1)) auto
    have dr: "drop i item = item ! i # drop (Suc i) item"
      using Suc.prems(1) by (simp add: Cons_nth_drop_Suc)
    show ?thesis using e lt IH
      by (subst fallback_loop.simps) (simp add: logged_def item_at_def subst_def dr add.commute)
  qed
qed

text \<open>
  Claim C3.  The executor's first attempt is the one with no substitution, and when it
  succeeds nothing else is invoked.  When that attempt and the candidates \<open>0..k-1\<close> throw
  and candidate \<open>k\<close> returns \<open>r\<close>, the executor returns \<open>r\<close>, the result of candidate \<open>k\<close>
  alone, and the invocations are exactly the un-substituted one followed by the candidates
  \<open>0..k\<close> in order: the candidates after \<open>k\<close> are never invoked.  When the un-substituted
  attempt and every candidate throw, each is invoked once, in order, and the error thrown
  by the last attempt is propagated as it is.
\<close>

theorem fallback_first_success:
  "(f None = Inr r \<longrightarrow> fallback key item (logged f) [] = (Inr (Some r), [None]))
   \<and> (k < length item \<and> isl (f None) \<and> (\<forall>j<k. isl (f (subst key (item ! j))))
        \<and> f (subst key (item ! k)) = Inr r
      \<longrightarrow> fallback key item (logged f) []
            = (Inr (Some r), None # map (subst key) (take (Suc k) item)))
   \<and> (isl (f None) \<and> (\<forall>j<length item. isl (f (subst key (item ! j))))
      \<longrightarrow> fallback key item (logged f) []
            = (Inl (projl (f (last (None # map (subst key) item)))),
               None # map (subst key) item))"
proof (intro conjI impI)
  assume "f None = Inr r"
  then show "fallback key item (logged f) [] = (Inr (Some r), [None])"
    unfolding fallback_def by (subst fallback_loop.simps) (simp add: logged_def)
next
  assume a: "k < length item \<and> isl (f None) \<and> (\<forall>j<k. isl (f (subst key (item ! j))))
        \<and> f (subst key (item ! k)) = Inr r"
  then obtain e where e: "f None = Inl e" by (metis isl_def)
  from a have ne: "item \<noteq> []" by auto
  have "fallback_loop key item (logged f) (int 0) [None]
     = (Inr (Some r), [None] @ map (subst key) (take (Suc k - 0) (drop 0 item)))"
    using a by (intro loop_success) auto
  then show "fallback key item (logged f) []
               = (Inr (Some r), None # map (subst key) (take (Suc k) item))"
    using e ne unfolding fallback_def
    by (subst fallback_loop.simps) (simp add: logged_def)
next
  assume a: "isl (f None) \<and> (\<forall>j<length item. isl (f (subst key (item ! j))))"
  then obtain e where e: "f None = Inl e" by (metis isl_def)
  show "fallback key item (logged f) []
            = (Inl (projl (f (last (None # map (subst key) item)))),
               None # map (subst key) item)"
  proof (cases "item = []")
    case True
    then show ?thesis using e unfolding fallback_def
      by (subst fallback_loop.simps) (simp add: logged_def)
  next
    case False
    then have "fallback_loop key item (logged f) (int 0) [None]
       = (Inl (projl (f (subst key (last item)))), [None] @ map (subst key) (drop 0 item))"
      using a by (intro loop_exhausted) auto
    then show ?thesis using e False unfolding fallback_def
      by (subst fallback_loop.simps) (simp add: logged_def last_map)
  qed
qed

text \<open>Four candidates of which the third is the first to succeed, and two candidates
  that both fail.\<close>

theorem fallback_first_success_witness:
  "fallback ''model'' [0, 1, 2, 3] (logged flaky) []
     = (Inr (Some 20), [None, subst ''model'' 0, subst ''model'' 1, subst ''model'' 2])
   \<and> fallback ''model'' [0, 1] (logged flaky) []
     = (Inl ''rate limited'', [None, subst ''model'' 0, subst ''model'' 1])"
  using fallback_first_success [of flaky 20 "''model''" "[0, 1, 2, 3]" 2]
        fallback_first_success [of flaky 20 "''model''" "[0, 1]" 2]
  by (simp add: flaky_def subst_def less_Suc_eq all_conj_distrib numeral_2_eq_2 numeral_3_eq_3)

section \<open>Reasoning extraction\<close>

lemma index_of_first:
  assumes "x \<notin> set t" and "\<not> js_includes a (x # t)" and r: "r = x # b"
  shows "index_of (x # t) (a @ r) = map_option (\<lambda>i. length a + i) (index_of (x # t) r)"
  using assms(2)
proof (induction a)
  case Nil
  then show ?case by (simp add: option.map_ident)
next
  case (Cons c cs)
  have np: "\<not> prefix (x # t) (c # cs @ r)"
  proof
    assume pr: "prefix (x # t) (c # cs @ r)"
    then have cx: "c = x" and pt: "prefix t (cs @ x # b)" by (auto simp: r)
    show False
    proof (cases "length t \<le> length cs")
      case True
      with pt have "prefix t cs"
        by (metis prefix_append prefix_length_prefix append_prefixD prefix_order.order_refl prefixI linorder_le_cases)
      with cx have "prefix (x # t) (c # cs)" by simp
      with Cons.prems show False by (simp add: js_includes_def)
    next
      case False
      then have "length cs < length t" by simp
      moreover from pt obtain z where "cs @ x # b = t @ z" by (auto simp: prefix_def)
      ultimately have "t ! length cs = x"
        by (metis nth_append nth_append_length)
      with \<open>length cs < length t\<close> assms(1) show False by (metis nth_mem)
    qed
  qed
  have ni: "\<not> js_includes cs (x # t)"
    using Cons.prems by (auto simp: js_includes_def split: if_splits)
  have "index_of (x # t) ((c # cs) @ r) = map_option Suc (index_of (x # t) (cs @ r))"
    using np by (simp del: Cons_prefix_Cons)
  also have "\<dots> = map_option (\<lambda>i. length (c # cs) + i) (index_of (x # t) r)"
    by (simp add: Cons.IH[OF ni] option.map_comp comp_def)
  finally show ?case .
qed

lemma split_head:
  "sep \<noteq> [] \<Longrightarrow> index_of sep s = Some i \<Longrightarrow> item_at (js_split sep s) 0 = Some (take i s)"
  "sep \<noteq> [] \<Longrightarrow> index_of sep s = None \<Longrightarrow> item_at (js_split sep s) 0 = Some s"
  by (subst js_split.simps, simp add: item_at_def)+

lemma split_second:
  "sep \<noteq> [] \<Longrightarrow> index_of sep s = Some i \<Longrightarrow>
     item_at (js_split sep s) 1 = item_at (js_split sep (drop (i + length sep) s)) 0"
  by (subst js_split.simps) (simp add: item_at_def js_split.simps[of sep "drop (i + length sep) s"] split: option.splits)

lemma think_open_scan:
  "index_of ''<think>'' (''</think>'' @ t)
     = map_option (\<lambda>i. length ''</think>'' + i) (index_of ''<think>'' t)"
  by (simp add: option.map_comp comp_def)

lemma think_inner:
  assumes a: "\<not> js_includes inner ''<think>''" and b: "\<not> js_includes inner ''</think>''"
  shows "think_extract (Some (''<think>'' @ inner @ ''</think>'' @ trailing)) = Inr (Some (trim inner))"
proof -
  let ?rest = "inner @ ''</think>'' @ trailing"
  have inc: "js_includes (''<think>'' @ ?rest) ''<think>''"
    by (simp add: js_includes_def)
  have i0: "index_of ''<think>'' (''<think>'' @ ?rest) = Some 0" by simp
  have second: "item_at (js_split ''<think>'' (''<think>'' @ ?rest)) 1
                  = item_at (js_split ''<think>'' ?rest) 0"
    using split_second[OF _ i0] by simp
  have scan: "index_of ''<think>'' ?rest
                = map_option (\<lambda>i. length inner + (length ''</think>'' + i))
                    (index_of ''<think>'' trailing)"
  proof -
    have "index_of ''<think>'' ?rest
            = map_option (\<lambda>i. length inner + i) (index_of ''<think>'' (''</think>'' @ trailing))"
      using a by (intro index_of_first[where b = "''/think>'' @ trailing"]) auto
    then show ?thesis
      by (simp only: think_open_scan option.map_comp comp_def)
  qed
  have seg: "\<exists>t'. item_at (js_split ''<think>'' ?rest) 0 = Some (inner @ ''</think>'' @ t')"
  proof (cases "index_of ''<think>'' trailing")
    case None
    then have "index_of ''<think>'' ?rest = None" using scan by simp
    then show ?thesis using split_head(2)[of "''<think>''" ?rest] by auto
  next
    case (Some j)
    then have "index_of ''<think>'' ?rest = Some (length inner + (length ''</think>'' + j))"
      using scan by simp
    then have "item_at (js_split ''<think>'' ?rest) 0
                 = Some (take (length inner + (length ''</think>'' + j)) ?rest)"
      using split_head(1)[of "''<think>''" ?rest] by auto
    moreover have "take (length inner + (length ''</think>'' + j)) ?rest
                     = inner @ ''</think>'' @ take j trailing"
    proof -
      have "take (length inner + (length u + j)) (inner @ u @ trailing)
              = inner @ u @ take j trailing" for u :: string
        by simp
      then show ?thesis .
    qed
    ultimately show ?thesis by metis
  qed
  then obtain t' where t': "item_at (js_split ''<think>'' ?rest) 0 = Some (inner @ ''</think>'' @ t')"
    by blast
  have close: "index_of ''</think>'' (inner @ ''</think>'' @ t') = Some (length inner)"
    using index_of_first[of "CHR ''<''" "''/think>''" inner "''</think>'' @ t'" "''/think>'' @ t'"] b
    by simp
  have "item_at (js_split ''</think>'' (inner @ ''</think>'' @ t')) 0 = Some inner"
    using split_head(1)[OF _ close] by simp
  then show ?thesis
    using inc second t' by (simp add: think_extract_def del: index_of.simps)
qed

lemma reasoning_stage_value:
  "reasoning_enabled p pre \<Longrightarrow>
   fallback ''model'' [Some (LanguageModel deepinfra ''deepseek-ai/DeepSeek-R1'' False)]
     (reasoning_call ev p) s = (Inr reasoningResult, s1) \<Longrightarrow>
   fst (reasoning_stage ev p pre s) = think_extract (raw_reasoning reasoningResult)"
  by (simp add: reasoning_stage_def split: sum.splits)

text \<open>
  Claim C7, as the code has it.  The reasoning text of the reasoning sub-run is extracted
  from a raw text: the reasoning-trace field of the sub-run's result when that field is a
  non-empty string, whatever the answer text is, and the answer text otherwise.  For a raw
  text \<^verbatim>\<open><think>INNER</think>TRAILING\<close> whose \<^verbatim>\<open>INNER\<close> contains neither delimiter, the
  reasoning text is \<^verbatim>\<open>INNER\<close> trimmed; a raw text without \<^verbatim>\<open><think>\<close> is the reasoning
  text, unmodified.
\<close>

theorem think_extract_span:
  "(r_reasoning r = Some (''<think>'' @ inner @ ''</think>'' @ trailing)
      \<and> \<not> js_includes inner ''<think>'' \<and> \<not> js_includes inner ''</think>''
     \<longrightarrow> think_extract (raw_reasoning (Some r)) = Inr (Some (trim inner)))
   \<and> (\<not> truthy (r_reasoning r) \<and> r_text r = ''<think>'' @ inner @ ''</think>'' @ trailing
      \<and> \<not> js_includes inner ''<think>'' \<and> \<not> js_includes inner ''</think>''
     \<longrightarrow> think_extract (raw_reasoning (Some r)) = Inr (Some (trim inner)))
   \<and> (r_reasoning r = Some t \<and> t \<noteq> [] \<and> \<not> js_includes t ''<think>''
     \<longrightarrow> think_extract (raw_reasoning (Some r)) = Inr (Some t))
   \<and> (\<not> truthy (r_reasoning r) \<and> \<not> js_includes (r_text r) ''<think>''
     \<longrightarrow> think_extract (raw_reasoning (Some r)) = Inr (Some (r_text r)))
   \<and> (reasoning_enabled p pre
      \<and> fallback ''model'' [Some (LanguageModel deepinfra ''deepseek-ai/DeepSeek-R1'' False)]
            (reasoning_call ev p) s = (Inr (Some r), s1)
     \<longrightarrow> fst (reasoning_stage ev p pre s) = think_extract (raw_reasoning (Some r)))"
proof (intro conjI impI)
  assume a: "r_reasoning r = Some (''<think>'' @ inner @ ''</think>'' @ trailing)
      \<and> \<not> js_includes inner ''<think>'' \<and> \<not> js_includes inner ''</think>''"
  then have "raw_reasoning (Some r) = Some (''<think>'' @ inner @ ''</think>'' @ trailing)"
    by (simp add: raw_reasoning_def or_else_def truthy_def)
  then show "think_extract (raw_reasoning (Some r)) = Inr (Some (trim inner))"
    using a think_inner by simp
next
  assume a: "\<not> truthy (r_reasoning r) \<and> r_text r = ''<think>'' @ inner @ ''</think>'' @ trailing
      \<and> \<not> js_includes inner ''<think>'' \<and> \<not> js_includes inner ''</think>''"
  then have "raw_reasoning (Some r) = Some (''<think>'' @ inner @ ''</think>'' @ trailing)"
    by (simp add: raw_reasoning_def or_else_def)
  then show "think_extract (raw_reasoning (Some r)) = Inr (Some (trim inner))"
    using a think_inner by simp
next
  assume "r_reasoning r = Some t \<and> t \<noteq> [] \<and> \<not> js_includes t ''<think>''"
  then show "think_extract (raw_reasoning (Some r)) = Inr (Some t)"
    by (simp add: raw_reasoning_def or_else_def truthy_def think_extract_def)
next
  assume "\<not> truthy (r_reasoning r) \<and> \<not> js_includes (r_text r) ''<think>''"
  then show "think_extract (raw_reasoning (Some r)) = Inr (Some (r_text r))"
    by (simp add: raw_reasoning_def or_else_def think_extract_def)
next
  assume "reasoning_enabled p pre
      \<and> fallback ''model'' [Some (LanguageModel deepinfra ''deepseek-ai/DeepSeek-R1'' False)]
            (reasoning_call ev p) s = (Inr (Some r), s1)"
  then show "fst (reasoning_stage ev p pre s) = think_extract (raw_reasoning (Some r))"
    by (simp add: reasoning_stage_value)
qed

section \<open>File references\<close>

lemma digit_char_inj: "a < 10 \<Longrightarrow> b < 10 \<Longrightarrow> digit_char a = digit_char b \<Longrightarrow> a = b"
proof -
  assume a: "a < 10" and b: "b < 10" and e: "digit_char a = digit_char b"
  from e have "(of_char (digit_char a) :: nat) = of_char (digit_char b)" by simp
  then have "(48 + a) mod 256 = (48 + b) mod 256"
    by (simp add: digit_char_def of_char_of)
  with a b show "a = b" by simp
qed

lemma string_of_nat_nonempty: "string_of_nat n \<noteq> []"
  by (subst string_of_nat.simps) simp

lemma string_of_nat_inj: "string_of_nat n = string_of_nat m \<Longrightarrow> n = m"
proof (induction n arbitrary: m rule: string_of_nat.induct)
  case (1 n)
  show ?case
  proof (cases "n < 10")
    case True
    then have sn: "string_of_nat n = [digit_char n]" by (subst string_of_nat.simps) simp
    show ?thesis
    proof (cases "m < 10")
      case mt: True
      then have "string_of_nat m = [digit_char m]" by (subst string_of_nat.simps) simp
      with sn "1.prems" True mt show ?thesis by (auto dest: digit_char_inj)
    next
      case False
      then have "string_of_nat m = string_of_nat (m div 10) @ [digit_char (m mod 10)]"
        by (subst string_of_nat.simps) simp
      with sn "1.prems" string_of_nat_nonempty[of "m div 10"] show ?thesis by simp
    qed
  next
    case False
    then have sn: "string_of_nat n = string_of_nat (n div 10) @ [digit_char (n mod 10)]"
      by (subst string_of_nat.simps) simp
    show ?thesis
    proof (cases "m < 10")
      case True
      then have "string_of_nat m = [digit_char m]" by (subst string_of_nat.simps) simp
      with sn "1.prems" string_of_nat_nonempty[of "n div 10"] show ?thesis by simp
    next
      case mf: False
      then have "string_of_nat m = string_of_nat (m div 10) @ [digit_char (m mod 10)]"
        by (subst string_of_nat.simps) simp
      with sn "1.prems" have eq: "string_of_nat (n div 10) = string_of_nat (m div 10)"
        and d: "digit_char (n mod 10) = digit_char (m mod 10)" by auto
      from "1.IH"[OF False eq] have "n div 10 = m div 10" .
      moreover from d have "n mod 10 = m mod 10" by (intro digit_char_inj) auto
      ultimately show ?thesis by (metis div_mult_mod_eq)
    qed
  qed
qed

lemma prefix_includes: "prefix sub s \<Longrightarrow> js_includes s sub"
  by (cases s) (auto simp: js_includes_def)

lemma latestPromptFiles_nth:
  "i < length (latestPromptFiles c) \<Longrightarrow>
     ref (latestPromptFiles c ! i) = ''https://onellmref.com/'' @ string_of_nat i"
  by (cases c) (auto simp: latestPromptFiles_def nth_enumerate_eq)

lemma find_own_ref:
  assumes "i < length (latestPromptFiles c)"
  shows "find (\<lambda>f. ref f = ref (latestPromptFiles c ! i)) (latestPromptFiles c)
           = Some (latestPromptFiles c ! i)"
proof -
  have "\<forall>j<i. ref (latestPromptFiles c ! j) \<noteq> ref (latestPromptFiles c ! i)"
    using assms by (auto simp: latestPromptFiles_nth dest: string_of_nat_inj)
  then show ?thesis using assms unfolding find_Some_iff by blast
qed

lemma resolve_known:
  assumes "i < length (latestPromptFiles c)"
  shows "resolve_url (latestPromptFiles c) (''https://onellmref.com/'' @ string_of_nat i)
           = (if data (file_part (latestPromptFiles c ! i)) \<noteq> []
              then data (file_part (latestPromptFiles c ! i))
              else ''https://onellmref.com/'' @ string_of_nat i)"
proof -
  let ?u = "''https://onellmref.com/'' @ string_of_nat i"
  have u: "?u = ref (latestPromptFiles c ! i)" using assms by (simp add: latestPromptFiles_nth)
  have "js_includes ?u ''https://onellmref.com''"
    by (rule prefix_includes) simp
  then show ?thesis
    unfolding resolve_url_def using find_own_ref[OF assms] u by (simp del: append.simps)
qed

lemma resolve_unknown:
  "\<forall>f \<in> set files. ref f \<noteq> u \<Longrightarrow> resolve_url files u = u"
proof -
  assume "\<forall>f \<in> set files. ref f \<noteq> u"
  then have "find (\<lambda>f. ref f = u) files = None"
    by (simp add: find_None_iff)
  then show ?thesis by (simp add: resolve_url_def)
qed

text \<open>
  Claim C8, as the code has it.  The three tools that take a url pass it through
  \<open>resolve_url\<close>.  The url \<^verbatim>\<open>https://onellmref.com/<i>\<close> of the \<open>i\<close>-th non-text part of
  the latest turn reaches the capability as that part's data when the data is a non-empty
  string, and as the url itself when the data is empty; a url that is the reference of no
  part reaches the capability unchanged.
\<close>

theorem tools_resolve_reference:
  "(i < length (latestPromptFiles c)
      \<longrightarrow> (let files = latestPromptFiles c;
               u = ''https://onellmref.com/'' @ string_of_nat i;
               payload = data (file_part (files ! i));
               sent = (if payload \<noteq> [] then payload else u)
           in ai_scraper_execute ev files u fs = ai_scrape ev sent fs
              \<and> ocr_execute ev files u fs = vocr ev sent fs
              \<and> speech_to_text_execute ev files u = speech_to_text ev sent))
   \<and> ((\<forall>f \<in> set (latestPromptFiles c). ref f \<noteq> w)
      \<longrightarrow> ai_scraper_execute ev (latestPromptFiles c) w fs = ai_scrape ev w fs
          \<and> ocr_execute ev (latestPromptFiles c) w fs = vocr ev w fs
          \<and> speech_to_text_execute ev (latestPromptFiles c) w = speech_to_text ev w)"
  by (simp add: ai_scraper_execute_def ocr_execute_def speech_to_text_execute_def Let_def
        resolve_known resolve_unknown del: append.simps)

section \<open>The call log of a request\<close>

lemma fallback_loop_inv:
  assumes step: "\<And>a s. I s \<Longrightarrow> I (snd (g a s))"
  shows "I s \<Longrightarrow> I (snd (fallback_loop key item g i s))"
proof (induction "nat (int (length item) - i)" arbitrary: i s rule: less_induct)
  case less
  let ?a = "if i \<ge> 0 then Some (key, item_at item i) else None"
  obtain r s' where g: "g ?a s = (r, s')" by (cases "g ?a s") auto
  have I': "I s'" using step[OF less.prems, of ?a] g by simp
  show ?case
  proof (cases r)
    case (Inr v)
    then show ?thesis using g I' by (subst fallback_loop.simps) simp
  next
    case (Inl e)
    show ?thesis
    proof (cases "i + 1 \<ge> int (length item)")
      case True
      then show ?thesis using g Inl I' by (subst fallback_loop.simps) simp
    next
      case False
      then have "nat (int (length item) - (i + 1)) < nat (int (length item) - i)" by simp
      from less.hyps[OF this I'] show ?thesis
        using g Inl False by (subst fallback_loop.simps) simp
    qed
  qed
qed

lemma fallback_inv:
  assumes "\<And>a s. I s \<Longrightarrow> I (snd (g a s))" and "I s"
  shows "I (snd (fallback key item g s))"
  unfolding fallback_def using assms by (rule fallback_loop_inv)

text \<open>The same for a relation between the state before the executor and the state
  after it.\<close>

lemma fallback_rel:
  assumes step: "\<And>a s. R s0 s \<Longrightarrow> R s0 (snd (g a s))" and "R s0 s0"
  shows "R s0 (snd (fallback key item g s0))"
  using fallback_inv[where I = "R s0", OF step assms(2)] .

lemma spread_args_temperature [simp]: "o_temperature (spread_args opts a) = o_temperature opts"
  by (auto simp: spread_args_def split: option.splits)


lemma adds_refl [simp]: "adds P s s"
  by (simp add: adds_def)

lemma adds_trans: "adds P s s' \<Longrightarrow> adds P s' s'' \<Longrightarrow> adds P s s''"
  by (auto simp: adds_def)

lemma adds_mono: "adds P s s' \<Longrightarrow> (\<And>x. P x \<Longrightarrow> Q x) \<Longrightarrow> adds Q s s'"
  by (auto simp: adds_def list_all_iff)

lemma adds_issue: "P (st, c) \<Longrightarrow> adds P s0 s \<Longrightarrow> adds P s0 (issue st c s)"
  by (auto simp: adds_def issue_def)

lemma adds_upd [simp]:
  "adds P s0 (s\<lparr>prompts := ps\<rparr>) = adds P s0 s"
  "adds P s0 (s\<lparr>toolUsed := tu\<rparr>) = adds P s0 s"
  "adds P s0 (s\<lparr>genFiles := gf\<rparr>) = adds P s0 s"
  by (simp_all add: adds_def)

lemma adds_and_then:
  assumes "\<And>s. adds P s (snd (m s))" and "\<And>a s. adds P s (snd (f a s))"
  shows "adds P s (snd (and_then m f s))"
proof (cases "m s")
  case (Pair r s')
  then have 1: "adds P s s'" using assms(1)[of s] by simp
  show ?thesis
  proof (cases r)
    case (Inl e)
    then show ?thesis using Pair 1 by (simp add: and_then_def)
  next
    case (Inr a)
    then show ?thesis using Pair adds_trans[OF 1 assms(2)[of s' a]] by (simp add: and_then_def)
  qed
qed

lemma planner_adds:
  "adds (\<lambda>sc. fst sc = Planner \<and> tagged p sc) s (snd (decidePreConfig ev ml tls ps s))"
proof -
  have "adds (\<lambda>sc. fst sc = Planner \<and> tagged p sc) s
          (snd (fallback ''model'' [Some (LanguageModel google_default ''gemini-1.5-flash-8b'' False)]
             (planner_call ev ml (preConfigPrompt ev ml tls ps)) s))"
    by (rule fallback_rel)
       (auto simp: planner_call_def Let_def tagged_def intro!: adds_issue split: lookup_result.splits)
  then show ?thesis
    by (auto simp: decidePreConfig_def split: prod.splits sum.splits option.splits)
qed

lemma web_adds:
  "adds (\<lambda>sc. fst sc = WebSearch \<and> tagged p sc) s (snd (web_stage ev p pre ltp s))"
  by (auto simp: web_stage_def Let_def tagged_def intro!: adds_issue split: option.splits sum.splits)

lemma tool_adds:
  "adds (\<lambda>sc. fst sc = ToolRun \<and> tagged p sc) s (snd (tool_stage ev p pre tls ltp files s))"
proof -
  have "adds (\<lambda>sc. fst sc = ToolRun \<and> tagged p sc) s
          (snd (fallback ''model'' [Some (LanguageModel groq ''llama-3.3-70b-versatile'' False)]
                   (tool_call_run ev p tls (tool_prompt ev ltp files)) s))"
    by (rule fallback_rel)
       (auto simp: tool_call_run_def Let_def tagged_def intro!: adds_issue)
  then show ?thesis
    by (auto simp: tool_stage_def Let_def split: prod.splits sum.splits option.splits)
qed

lemma reasoning_adds:
  "adds (\<lambda>sc. fst sc = Reasoning \<and> tagged p sc) s (snd (reasoning_stage ev p pre s))"
proof -
  have "adds (\<lambda>sc. fst sc = Reasoning \<and> tagged p sc) s
          (snd (fallback ''model'' [Some (LanguageModel deepinfra ''deepseek-ai/DeepSeek-R1'' False)]
                   (reasoning_call ev p) s))"
    by (rule fallback_rel)
       (auto simp: reasoning_call_def Let_def tagged_def intro!: adds_issue)
  then show ?thesis
    by (auto simp: reasoning_stage_def Let_def split: prod.splits sum.splits option.splits)
qed

lemma multi_adds:
  "adds (\<lambda>sc. fst sc = MultiLLM \<and> tagged p sc) s (snd (multi_stage ev p ml s))"
  by (auto simp: multi_stage_def Let_def adds_def tagged_def list_all_iff multi_options_def)

lemma final_adds:
  "adds (\<lambda>sc. fst sc = Final \<and> tagged p sc) s (snd (final_stage ev p ml mc rt s))"
proof (cases "final_fallback_model ml mc")
  case (Inl e)
  then show ?thesis by (simp add: final_stage_def)
next
  case (Inr fb)
  have "adds (\<lambda>sc. fst sc = Final \<and> tagged p sc) s
          (snd (fallback ''model'' [fb] (final_call ev p mc rt) s))"
    by (rule fallback_rel)
       (auto simp: final_call_def Let_def tagged_def intro!: adds_issue split: sum.splits)
  then show ?thesis using Inr
    by (auto simp: final_stage_def Let_def split: prod.splits sum.splits option.splits)
qed

lemma augment_adds:
  "adds (\<lambda>sc. fst sc \<noteq> Final \<and> tagged p sc) s (snd (augment ev p pre ltp files tls s))"
  unfolding augment_def
  by (intro adds_and_then adds_mono[OF web_adds] adds_mono[OF tool_adds]
            adds_mono[OF reasoning_adds] adds_mono[OF multi_adds]) auto

lemma generate_tagged: "list_all (tagged p) (calls (snd (generate ev p)))"
proof (cases "item_at (prompts_of p) (int (length (prompts_of p)) - 1)")
  case None
  then show ?thesis by (simp add: generate_def initial_state_def)
next
  case (Some lastPrompt)
  have "adds (tagged p) (initial_state (prompts_of p)) (snd (generate ev p))"
    unfolding generate_def Let_def using Some
    by (simp del: adds_refl)
       (intro adds_and_then adds_mono[OF planner_adds] adds_mono[OF augment_adds]
              adds_mono[OF final_adds], auto)
  then show ?thesis by (auto simp: adds_def initial_state_def)
qed

text \<open>
  Claim C9.  When the caller supplies no temperature, every completion that
  \<^verbatim>\<open>generate\<close> issues in the tool-calling sub-run, the reasoning sub-run, the multi-model
  cross-check and the final generation, the retries of the fallback executor included,
  carries the sampling temperature 0.
\<close>

theorem default_temperature_zero:
  "temperature p = None \<Longrightarrow>
   \<forall>(st, c) \<in> set (calls (snd (generate ev p))).
      st \<in> {ToolRun, Reasoning, MultiLLM, Final} \<longrightarrow> call_temperature c = Some 0"
proof -
  assume t: "temperature p = None"
  have "\<forall>sc \<in> set (calls (snd (generate ev p))). tagged p sc"
    using generate_tagged[of p ev] by (simp add: list_all_iff)
  then show ?thesis using t
    by (auto simp: tagged_def call_temperature_def temperature_of_def split: outbound.splits)
qed

section \<open>The stages one by one\<close>

lemma fallback_loop_last:
  "fallback_loop key [x] g 0 s =
     (case g (Some (key, Some x)) s of
        (Inr r, s') \<Rightarrow> (Inr (Some r), s')
      | (Inl e, s') \<Rightarrow> (Inl e, s'))"
  by (subst fallback_loop.simps) (simp add: item_at_def split: prod.splits sum.splits)

lemma fallback_single:
  "fallback key [x] g s =
     (case g None s of
        (Inr r, s') \<Rightarrow> (Inr (Some r), s')
      | (Inl e, s') \<Rightarrow>
          (case g (Some (key, Some x)) s' of
             (Inr r, s'') \<Rightarrow> (Inr (Some r), s'')
           | (Inl e', s'') \<Rightarrow> (Inl e', s'')))"
  unfolding fallback_def
  by (subst fallback_loop.simps) (simp add: fallback_loop_last split: prod.splits sum.splits)

lemma fallback_issues:
  fixes g :: "(string \<times> 't option) option \<Rightarrow> gstate \<Rightarrow> ('e + 'r) \<times> gstate"
  assumes step: "\<And>a s. length (calls s) < length (calls (snd (g a s)))"
  shows "length (calls s) < length (calls (snd (fallback key item g s)))"
proof -
  let ?I = "\<lambda>s' :: gstate. length (calls s) < length (calls s')"
  obtain r s' where g: "g None s = (r, s')" by (cases "g None s") auto
  have I': "?I s'" using step[of s None] g by simp
  have rec: "?I (snd (fallback_loop key item g 0 s'))"
  proof (rule fallback_loop_inv[where I = ?I, OF _ I'])
    fix a and sa :: gstate assume "length (calls s) < length (calls sa)"
    with step[of sa a] show "length (calls s) < length (calls (snd (g a sa)))" by linarith
  qed
  show ?thesis
    unfolding fallback_def using g I' rec
    by (subst fallback_loop.simps) (auto split: sum.splits)
qed

lemma skip_stages:
  "\<not> (truthy ltp \<and> web_enabled p pre) \<Longrightarrow> web_stage ev p pre ltp s = (Inr (), s)"
  "\<not> (pc_use_tool pre \<and> autoTool_of p) \<Longrightarrow> tool_stage ev p pre tls ltp files s = (Inr (), s)"
  "\<not> reasoning_enabled p pre \<Longrightarrow> reasoning_stage ev p pre s = (Inr None, s)"
  "multiLLM p \<noteq> Some True \<Longrightarrow> multi_stage ev p ml s = (Inr (), s)"
  by (auto simp: web_stage_def tool_stage_def reasoning_stage_def multi_stage_def truthy_bool_def
        truthy_def split: option.splits)

lemma web_ran:
  "stage_ran (web_stage ev p pre ltp) s \<longleftrightarrow> truthy ltp \<and> web_enabled p pre"
  by (auto simp: stage_ran_def web_stage_def truthy_def issue_def Let_def
        split: option.splits sum.splits)

lemma tool_ran:
  "stage_ran (tool_stage ev p pre tls ltp files) s \<longleftrightarrow> pc_use_tool pre \<and> autoTool_of p"
proof (cases "pc_use_tool pre \<and> autoTool_of p")
  case False
  then show ?thesis by (simp add: stage_ran_def skip_stages)
next
  case True
  have "length (calls s)
          < length (calls (snd (fallback ''model'' [Some (LanguageModel groq ''llama-3.3-70b-versatile'' False)]
                   (tool_call_run ev p tls (tool_prompt ev ltp files)) s)))"
    by (rule fallback_issues) (simp add: tool_call_run_def Let_def issue_def)
  then show ?thesis using True
    by (auto simp: stage_ran_def tool_stage_def Let_def split: prod.splits sum.splits)
qed

lemma reasoning_ran:
  "stage_ran (reasoning_stage ev p pre) s \<longleftrightarrow> reasoning_enabled p pre"
proof (cases "reasoning_enabled p pre")
  case False
  then show ?thesis by (simp add: stage_ran_def skip_stages)
next
  case True
  have "length (calls s)
          < length (calls (snd (fallback ''model'' [Some (LanguageModel deepinfra ''deepseek-ai/DeepSeek-R1'' False)]
                   (reasoning_call ev p) s)))"
    by (rule fallback_issues) (simp add: reasoning_call_def Let_def issue_def)
  then show ?thesis using True
    by (auto simp: stage_ran_def reasoning_stage_def Let_def split: prod.splits sum.splits)
qed

section \<open>The multi-model cross-check\<close>

lemma fulfilled_texts:
  "map g (fulfilled (map f xs))
     = concat (map (\<lambda>x. case f x of Inl e \<Rightarrow> [] | Inr r \<Rightarrow> [g r]) xs)"
  by (induction xs) (auto simp: fulfilled_def split: sum.splits)

lemma multi_stage_run:
  "multiLLM p = Some True \<Longrightarrow>
   multi_stage ev p ml s =
     (Inr (),
      s\<lparr> calls := calls s @ map (\<lambda>k. (MultiLLM,
                      GenerateText (multi_options p s (provider_of (lookup_model ml k)))))
                    (object_keys ml),
         prompts := splice (int (length (prompts s)) - 1)
           \<lparr> role = RUser,
             content = Parts [\<lparr> ptype = TText,
               data = ''Context from multiple LLMs: '' @
                 JSON_stringify ev (StringsValue
                   (concat (map (\<lambda>k. case generateText ev
                                          (multi_options p s (provider_of (lookup_model ml k))) of
                                        Inl e \<Rightarrow> [] | Inr r \<Rightarrow> [r_text r])
                      (object_keys ml)))),
               mimeType = None \<rparr>] \<rparr>
           (prompts s) \<rparr>)"
  by (simp add: multi_stage_def truthy_bool_def Let_def fulfilled_texts[symmetric] comp_def)

text \<open>
  Claim C6.  When the multi-model flag is on, the stage issues exactly one completion per
  key of the registry, in the order of the keys, and none of them a second time.  Whatever
  subset of the completions is rejected, the stage does not fail, and the turn it inserts
  before the last turn carries the serialised list of the texts of the fulfilled
  completions, in the order of the registry's keys.
\<close>

theorem multi_stage_fulfilled_only:
  "multiLLM p = Some True \<Longrightarrow>
   fst (multi_stage ev p ml s) = Inr ()
   \<and> calls (snd (multi_stage ev p ml s))
       = calls s @ map (\<lambda>k. (MultiLLM,
                      GenerateText (multi_options p s (provider_of (lookup_model ml k)))))
                    (object_keys ml)
   \<and> prompts (snd (multi_stage ev p ml s))
       = splice (int (length (prompts s)) - 1)
           \<lparr> role = RUser,
             content = Parts [\<lparr> ptype = TText,
               data = ''Context from multiple LLMs: '' @
                 JSON_stringify ev (StringsValue
                   (concat (map (\<lambda>k. case generateText ev
                                          (multi_options p s (provider_of (lookup_model ml k))) of
                                        Inl e \<Rightarrow> [] | Inr r \<Rightarrow> [r_text r])
                      (object_keys ml)))),
               mimeType = None \<rparr>] \<rparr>
           (prompts s)"
  by (simp add: multi_stage_run)

section \<open>A model that the registry does not have\<close>

lemma item_at_last: "ps \<noteq> [] \<Longrightarrow> item_at ps (int (length ps) - 1) = Some (last ps)"
  by (cases ps rule: rev_cases) (auto simp: item_at_def nth_append)

text \<open>
  Claim C2, as the code has it.  Let the Planner return an identifier that is neither a key
  of the registry nor the name of a property that every object inherits.  Then the
  augmentation stages run first; when one of them throws, \<^verbatim>\<open>generate\<close> fails with that
  error, and otherwise it fails with the type error of reading \<^verbatim>\<open>id\<close> of the undefined
  registry entry.  In both cases \<^verbatim>\<open>generate\<close> fails and no final completion is issued, with
  any model.
\<close>

theorem unknown_model_fails:
  assumes "prompts_of p \<noteq> []"
    and "decidePreConfig ev modelList (allTools (tools p)) (prompts_of p)
           (initial_state (prompts_of p)) = (Inr pre, s1)"
    and "lookup_model modelList (pc_model pre) = LUndefined"
  shows "generate ev p =
           (case augment ev p pre (latestTextPrompt_of (content (last (prompts_of p))))
                   (latestPromptFiles (content (last (prompts_of p)))) (allTools (tools p)) s1 of
              (Inl e, s2) \<Rightarrow> (Inl e, s2)
            | (Inr rt, s2) \<Rightarrow> (Inl (TypeError ''reading id of undefined''), s2))
         \<and> isl (fst (generate ev p))
         \<and> (\<forall>(st, c) \<in> set (calls (snd (generate ev p))). st \<noteq> Final)"
proof -
  let ?aug = "augment ev p pre (latestTextPrompt_of (content (last (prompts_of p))))
                   (latestPromptFiles (content (last (prompts_of p)))) (allTools (tools p)) s1"
  have g: "generate ev p =
           (case ?aug of
              (Inl e, s2) \<Rightarrow> (Inl e, s2)
            | (Inr rt, s2) \<Rightarrow> (Inl (TypeError ''reading id of undefined''), s2))"
    using assms
    by (simp add: generate_def Let_def item_at_last and_then_def final_stage_def
          final_fallback_model_def split: prod.splits sum.splits)
  have "adds (\<lambda>sc. fst sc = Planner \<and> tagged p sc) (initial_state (prompts_of p)) s1"
    using planner_adds[of p "initial_state (prompts_of p)" ev modelList "allTools (tools p)" "prompts_of p"]
      assms(2) by simp
  then have c1: "\<forall>sc \<in> set (calls s1). fst sc \<noteq> Final"
    by (auto simp: adds_def initial_state_def list_all_iff)
  have "adds (\<lambda>sc. fst sc \<noteq> Final \<and> tagged p sc) s1 (snd ?aug)"
    by (rule augment_adds)
  then obtain ext where "calls (snd ?aug) = calls s1 @ ext"
      and "\<forall>sc \<in> set ext. fst sc \<noteq> Final"
    by (auto simp: adds_def list_all_iff)
  with c1 have c2: "\<forall>sc \<in> set (calls (snd ?aug)). fst sc \<noteq> Final"
    by (metis Un_iff set_append)
  have s: "snd (generate ev p) = snd ?aug"
    unfolding g by (simp split: prod.splits sum.splits)
  have f: "isl (fst (generate ev p))"
    unfolding g by (simp split: prod.splits sum.splits)
  show ?thesis using g f c2 s by auto
qed

section \<open>The stages inside \<^verbatim>\<open>generate\<close>\<close>

lemma and_then_assoc:
  "and_then (and_then m f) g = and_then m (\<lambda>a. and_then (f a) g)"
  by (auto simp: and_then_def fun_eq_iff split: prod.splits sum.splits)

lemma and_then_return: "and_then (\<lambda>s. (Inr a, s)) g = g a"
  by (simp add: and_then_def fun_eq_iff)

text \<open>Once the Planner has answered, \<^verbatim>\<open>generate\<close> is the sequence of the five stages,
  each of which runs when the stages before it have not thrown.\<close>

lemma generate_planned:
  assumes "prompts_of p \<noteq> []"
    and "decidePreConfig ev modelList (allTools (tools p)) (prompts_of p)
           (initial_state (prompts_of p)) = (Inr pre, s1)"
    and "ltp = latestTextPrompt_of (content (last (prompts_of p)))"
    and "files = latestPromptFiles (content (last (prompts_of p)))"
  shows "generate ev p =
           and_then (web_stage ev p pre ltp) (\<lambda>_.
           and_then (tool_stage ev p pre (allTools (tools p)) ltp files) (\<lambda>_.
           and_then (reasoning_stage ev p pre) (\<lambda>rt.
           and_then (multi_stage ev p modelList) (\<lambda>_.
           final_stage ev p modelList (lookup_model modelList (pc_model pre)) rt)))) s1"
proof -
  have "generate ev p =
          and_then (augment ev p pre ltp files (allTools (tools p)))
            (final_stage ev p modelList (lookup_model modelList (pc_model pre))) s1"
    using assms by (simp add: generate_def Let_def item_at_last and_then_def)
  then show ?thesis
    by (simp add: augment_def and_then_assoc and_then_return)
qed

lemma adds_tail:
  assumes "\<And>a s. adds P s (snd (f a s))"
  shows "adds P (snd (m s)) (snd (and_then m f s))"
proof (cases "m s")
  case (Pair r s')
  then show ?thesis using assms by (cases r) (simp_all add: and_then_def)
qed

lemma adds_keeps:
  "adds P s s' \<Longrightarrow> T \<in> set (stages_called s) \<Longrightarrow> T \<in> set (stages_called s')"
  by (auto simp: adds_def stages_called_def)

lemma adds_other:
  "adds P s s' \<Longrightarrow> (\<And>x. P x \<Longrightarrow> fst x \<noteq> T) \<Longrightarrow>
     T \<in> set (stages_called s') \<longleftrightarrow> T \<in> set (stages_called s)"
proof -
  assume a: "adds P s s'" and b: "\<And>x. P x \<Longrightarrow> fst x \<noteq> T"
  from a obtain ext where e: "calls s' = calls s @ ext" "list_all P ext"
    by (auto simp: adds_def)
  from e(2) b have "T \<notin> fst ` set ext" by (auto simp: list_all_iff)
  with e(1) show ?thesis by (auto simp: stages_called_def)
qed

lemma adds_own:
  "adds P s s' \<Longrightarrow> (\<And>x. P x \<Longrightarrow> fst x = T) \<Longrightarrow> calls s' \<noteq> calls s \<Longrightarrow>
     T \<in> set (stages_called s')"
proof -
  assume a: "adds P s s'" and b: "\<And>x. P x \<Longrightarrow> fst x = T" and c: "calls s' \<noteq> calls s"
  from a obtain ext where e: "calls s' = calls s @ ext" "list_all P ext"
    by (auto simp: adds_def)
  with c obtain x xs where "ext = x # xs" by (cases ext) auto
  with e b have "fst x = T" "x \<in> set (calls s')" by auto
  then show ?thesis by (auto simp: stages_called_def)
qed

lemma planner_only:
  assumes "decidePreConfig ev ml tls ps (initial_state ps) = (r, s1)"
  shows "set (stages_called s1) \<subseteq> {Planner}"
proof -
  have "adds (\<lambda>sc. fst sc = Planner \<and> tagged p sc) (initial_state ps) s1"
    using planner_adds[of p "initial_state ps" ev ml tls ps] assms by simp
  then show ?thesis
    by (auto simp: adds_def initial_state_def stages_called_def list_all_iff)
qed

lemma after_web:
  "adds (\<lambda>sc. fst sc \<in> {ToolRun, Reasoning, MultiLLM, Final}) s
     (snd (and_then (tool_stage ev p pre tls ltp files) (\<lambda>_.
           and_then (reasoning_stage ev p pre) (\<lambda>rt.
           and_then (multi_stage ev p ml) (\<lambda>_. final_stage ev p ml mc rt))) s))"
  by (intro adds_and_then adds_mono[OF tool_adds] adds_mono[OF reasoning_adds]
        adds_mono[OF multi_adds] adds_mono[OF final_adds]) auto

lemma after_tool:
  "adds (\<lambda>sc. fst sc \<in> {Reasoning, MultiLLM, Final}) s
     (snd (and_then (reasoning_stage ev p pre) (\<lambda>rt.
           and_then (multi_stage ev p ml) (\<lambda>_. final_stage ev p ml mc rt)) s))"
  by (intro adds_and_then adds_mono[OF reasoning_adds]
        adds_mono[OF multi_adds] adds_mono[OF final_adds]) auto

lemma after_reasoning:
  "adds (\<lambda>sc. fst sc \<in> {MultiLLM, Final}) s
     (snd (and_then (multi_stage ev p ml) (\<lambda>_. final_stage ev p ml mc rt) s))"
  by (intro adds_and_then adds_mono[OF multi_adds] adds_mono[OF final_adds]) auto


lemma own_stage_iff:
  assumes "adds (\<lambda>sc. fst sc = T) s s'" and "T \<notin> set (stages_called s)"
  shows "T \<in> set (stages_called s') \<longleftrightarrow> calls s' \<noteq> calls s"
proof
  assume "T \<in> set (stages_called s')"
  with assms(2) show "calls s' \<noteq> calls s" by (auto simp: stages_called_def)
next
  assume "calls s' \<noteq> calls s"
  with adds_own[OF assms(1)] show "T \<in> set (stages_called s')" by simp
qed

text \<open>A stage followed by stages with other tags: its tag is in the log of the whole
  sequence exactly when the stage itself issued a call.\<close>

lemma stage_in_sequence:
  assumes own: "adds (\<lambda>sc. fst sc = T) s (snd (m s))"
    and rest: "\<And>a s. adds (\<lambda>sc. fst sc \<noteq> T) s (snd (f a s))"
    and before: "T \<notin> set (stages_called s)"
  shows "T \<in> set (stages_called (snd (and_then m f s))) \<longleftrightarrow> stage_ran m s"
proof -
  have "adds (\<lambda>sc. fst sc \<noteq> T) (snd (m s)) (snd (and_then m f s))"
    by (rule adds_tail) (rule rest)
  then have "T \<in> set (stages_called (snd (and_then m f s)))
               \<longleftrightarrow> T \<in> set (stages_called (snd (m s)))"
    by (rule adds_other) simp
  also have "\<dots> \<longleftrightarrow> calls (snd (m s)) \<noteq> calls s"
    by (rule own_stage_iff[OF own before])
  finally show ?thesis by (simp add: stage_ran_def)
qed

lemma and_then_Inr: "m s = (Inr a, s') \<Longrightarrow> and_then m f s = f a s'"
  by (simp add: and_then_def)

lemma and_then_Inl: "m s = (Inl e, s') \<Longrightarrow> and_then m f s = (Inl e, s')"
  by (simp add: and_then_def)

lemma find_first:
  "find P xs = (case filter P xs of [] \<Rightarrow> None | x # rest \<Rightarrow> Some x)"
  by (induction xs) simp_all

lemma flag_or_planner:
  "web_enabled p pre \<longleftrightarrow> (case web_flag p of Some b \<Rightarrow> b | None \<Rightarrow> pc_web_search pre)"
  "reasoning_enabled p pre \<longleftrightarrow> (case reasoning p of Some b \<Rightarrow> b | None \<Rightarrow> pc_reasoning pre)"
  by (auto simp: web_enabled_def reasoning_enabled_def truthy_bool_def split: option.splits)

lemma web_in_generate:
  assumes "set (stages_called s1) \<subseteq> {Planner}"
  shows "WebSearch \<in> set (stages_called (snd (
           and_then (web_stage ev p pre ltp) (\<lambda>_.
           and_then (tool_stage ev p pre tls ltp files) (\<lambda>_.
           and_then (reasoning_stage ev p pre) (\<lambda>rt.
           and_then (multi_stage ev p ml) (\<lambda>_. final_stage ev p ml mc rt)))) s1)))
         \<longleftrightarrow> truthy ltp \<and> web_enabled p pre"
proof -
  have "WebSearch \<notin> set (stages_called s1)" using assms by auto
  then show ?thesis
    by (subst stage_in_sequence[where T = WebSearch])
       (auto intro: adds_mono[OF web_adds] adds_mono[OF after_web] simp: web_ran)
qed

lemma tool_in_generate:
  assumes "set (stages_called s1) \<subseteq> {Planner}"
  shows "ToolRun \<in> set (stages_called (snd (
           and_then (web_stage ev p pre ltp) (\<lambda>_.
           and_then (tool_stage ev p pre tls ltp files) (\<lambda>_.
           and_then (reasoning_stage ev p pre) (\<lambda>rt.
           and_then (multi_stage ev p ml) (\<lambda>_. final_stage ev p ml mc rt)))) s1)))
         \<longleftrightarrow> fst (web_stage ev p pre ltp s1) = Inr () \<and> pc_use_tool pre \<and> autoTool_of p"
proof -
  obtain r s2 where w: "web_stage ev p pre ltp s1 = (r, s2)" by (cases "web_stage ev p pre ltp s1")
  have "adds (\<lambda>sc. fst sc = WebSearch \<and> tagged p sc) s1 s2"
    using web_adds[of p s1 ev pre ltp] w by simp
  then have "ToolRun \<in> set (stages_called s2) \<longleftrightarrow> ToolRun \<in> set (stages_called s1)"
    by (rule adds_other) auto
  with assms have no: "ToolRun \<notin> set (stages_called s2)" by auto
  show ?thesis
  proof (cases r)
    case (Inl e)
    then show ?thesis using w no by (simp add: and_then_Inl)
  next
    case (Inr u)
    have "ToolRun \<in> set (stages_called (snd (
            and_then (tool_stage ev p pre tls ltp files) (\<lambda>_.
            and_then (reasoning_stage ev p pre) (\<lambda>rt.
            and_then (multi_stage ev p ml) (\<lambda>_. final_stage ev p ml mc rt))) s2)))
          \<longleftrightarrow> stage_ran (tool_stage ev p pre tls ltp files) s2"
      by (rule stage_in_sequence[where T = ToolRun])
         (auto intro: adds_mono[OF tool_adds] adds_mono[OF after_tool] simp: no)
    then show ?thesis using w Inr by (simp add: and_then_Inr tool_ran)
  qed
qed

lemma reasoning_in_generate:
  assumes "set (stages_called s1) \<subseteq> {Planner}"
  shows "Reasoning \<in> set (stages_called (snd (
           and_then (web_stage ev p pre ltp) (\<lambda>_.
           and_then (tool_stage ev p pre tls ltp files) (\<lambda>_.
           and_then (reasoning_stage ev p pre) (\<lambda>rt.
           and_then (multi_stage ev p ml) (\<lambda>_. final_stage ev p ml mc rt)))) s1)))
         \<longleftrightarrow> fst (web_stage ev p pre ltp s1) = Inr ()
             \<and> fst (tool_stage ev p pre tls ltp files (snd (web_stage ev p pre ltp s1))) = Inr ()
             \<and> reasoning_enabled p pre"
proof -
  obtain r s2 where w: "web_stage ev p pre ltp s1 = (r, s2)" by (cases "web_stage ev p pre ltp s1")
  obtain r' s3 where t: "tool_stage ev p pre tls ltp files s2 = (r', s3)"
    by (cases "tool_stage ev p pre tls ltp files s2")
  have "adds (\<lambda>sc. fst sc = WebSearch \<and> tagged p sc) s1 s2"
    using web_adds[of p s1 ev pre ltp] w by simp
  then have "Reasoning \<in> set (stages_called s2) \<longleftrightarrow> Reasoning \<in> set (stages_called s1)"
    by (rule adds_other) auto
  with assms have no2: "Reasoning \<notin> set (stages_called s2)" by auto
  have "adds (\<lambda>sc. fst sc = ToolRun \<and> tagged p sc) s2 s3"
    using tool_adds[of p s2 ev pre tls ltp files] t by simp
  then have "Reasoning \<in> set (stages_called s3) \<longleftrightarrow> Reasoning \<in> set (stages_called s2)"
    by (rule adds_other) auto
  with no2 have no3: "Reasoning \<notin> set (stages_called s3)" by simp
  show ?thesis
  proof (cases r)
    case (Inl e)
    then show ?thesis using w no2 by (simp add: and_then_Inl)
  next
    case (Inr u)
    show ?thesis
    proof (cases r')
      case (Inl e)
      then show ?thesis using w t Inr no3 by (simp add: and_then_Inr and_then_Inl)
    next
      case Inr2: (Inr u')
      have "Reasoning \<in> set (stages_called (snd (
              and_then (reasoning_stage ev p pre) (\<lambda>rt.
              and_then (multi_stage ev p ml) (\<lambda>_. final_stage ev p ml mc rt)) s3)))
            \<longleftrightarrow> stage_ran (reasoning_stage ev p pre) s3"
        by (rule stage_in_sequence[where T = Reasoning])
           (auto intro: adds_mono[OF reasoning_adds] adds_mono[OF after_reasoning] simp: no3)
      then show ?thesis using w t Inr Inr2 by (simp add: and_then_Inr reasoning_ran)
    qed
  qed
qed

text \<open>
  Claim C5, as the code has it.  Let the Planner have returned its decision, and let the
  text of the latest turn be its string content or, for a turn of parts, the data of its
  first text part.  In the run of \<^verbatim>\<open>generate\<close>:

  \<^item> the web search is called exactly when that text is a non-empty string and the web
    flag of the caller is true or, the flag being unset, the Planner asked for the search;
  \<^item> with \<^verbatim>\<open>autoTool\<close> false the tool-calling sub-run issues no completion, and with
    \<^verbatim>\<open>autoTool\<close> unset it issues one exactly when the web stage did not throw and the
    Planner asked for tools;
  \<^item> the reasoning sub-run issues a completion exactly when the web stage and the
    tool-calling stage did not throw and the reasoning flag of the caller is true or, the
    flag being unset, the Planner asked for reasoning.
\<close>

theorem caller_flags_override:
  assumes "prompts_of p \<noteq> []"
    and "decidePreConfig ev modelList (allTools (tools p)) (prompts_of p)
           (initial_state (prompts_of p)) = (Inr pre, s1)"
    and "ltp = latestTextPrompt_of (content (last (prompts_of p)))"
    and "files = latestPromptFiles (content (last (prompts_of p)))"
  shows "(WebSearch \<in> set (stages_called (snd (generate ev p)))
            \<longleftrightarrow> (case content (last (prompts_of p)) of
                   Str str \<Rightarrow> str \<noteq> []
                 | Parts cs \<Rightarrow>
                     (case filter (\<lambda>c. ptype c = TText) cs of
                        [] \<Rightarrow> False
                      | c # rest \<Rightarrow> data c \<noteq> []))
                \<and> (case web_flag p of Some b \<Rightarrow> b | None \<Rightarrow> pc_web_search pre))
       \<and> (autoTool p = Some False \<longrightarrow> ToolRun \<notin> set (stages_called (snd (generate ev p))))
       \<and> (autoTool p = None \<longrightarrow>
            (ToolRun \<in> set (stages_called (snd (generate ev p)))
               \<longleftrightarrow> fst (web_stage ev p pre ltp s1) = Inr () \<and> pc_use_tool pre))
       \<and> (Reasoning \<in> set (stages_called (snd (generate ev p)))
            \<longleftrightarrow> fst (web_stage ev p pre ltp s1) = Inr ()
                \<and> fst (tool_stage ev p pre (allTools (tools p)) ltp files
                          (snd (web_stage ev p pre ltp s1))) = Inr ()
                \<and> (case reasoning p of Some b \<Rightarrow> b | None \<Rightarrow> pc_reasoning pre))"
proof -
  note g = generate_planned[OF assms]
  have s1: "set (stages_called s1) \<subseteq> {Planner}" by (rule planner_only[OF assms(2)])
  have t: "truthy ltp \<longleftrightarrow>
             (case content (last (prompts_of p)) of
                Str str \<Rightarrow> str \<noteq> []
              | Parts cs \<Rightarrow>
                  (case filter (\<lambda>c. ptype c = TText) cs of
                     [] \<Rightarrow> False
                   | c # rest \<Rightarrow> data c \<noteq> []))"
    unfolding assms(3)
    by (simp add: latestTextPrompt_of_def truthy_def find_first split: content.splits list.splits)
  show ?thesis
    unfolding g web_in_generate[OF s1] tool_in_generate[OF s1] reasoning_in_generate[OF s1]
    by (simp add: flag_or_planner t autoTool_of_def)
qed

section \<open>An empty reasoning text\<close>

lemma reasoning_fallback_prompts:
  "prompts (snd (fallback key item (reasoning_call ev p) s)) = prompts s"
  by (rule fallback_inv[where I = "\<lambda>s'. prompts s' = prompts s"])
     (simp_all add: reasoning_call_def Let_def issue_def)

lemma final_stage_reasoningText:
  "final_stage ev p ml mc rt s = (Inr res, s') \<Longrightarrow>
     reasoningText res = (if truthy rt then rt else None)"
  by (auto simp: final_stage_def split: sum.splits prod.splits option.splits)

lemma spread_args_messages [simp]: "o_messages (spread_args opts a) = o_messages opts"
  by (auto simp: spread_args_def split: option.splits)

lemma set_splice [simp]: "set (splice i x xs) = insert x (set xs)"
proof -
  have "set (take k xs) \<union> set (drop k xs) = set xs" for k
    by (metis append_take_drop_id set_append)
  then show ?thesis by (auto simp: splice_def Let_def)
qed

lemma multi_stage_returns: "fst (multi_stage ev p ml s) = Inr ()"
  by (simp add: multi_stage_def Let_def)

lemma multi_stage_keeps:
  "x \<in> set (prompts s) \<Longrightarrow> x \<in> set (prompts (snd (multi_stage ev p ml s)))"
  by (simp add: multi_stage_def Let_def)

text \<open>The final stage leaves the conversation as it finds it, and every completion it
  issues, the retries included, is sent that conversation with its media.\<close>

lemma final_stage_sends:
  "prompts (snd (final_stage ev p ml mc rt s)) = prompts s
   \<and> adds (\<lambda>sc. fst sc = Final \<and> sent_messages (snd sc) = Some (messageMap (prompts s) False))
        s (snd (final_stage ev p ml mc rt s))"
proof (cases "final_fallback_model ml mc")
  case (Inl e)
  then show ?thesis by (simp add: final_stage_def)
next
  case (Inr fb)
  let ?R = "\<lambda>s0 s'. prompts s' = prompts s0
     \<and> adds (\<lambda>sc. fst sc = Final \<and> sent_messages (snd sc) = Some (messageMap (prompts s0) False))
          s0 s'"
  have "?R s (snd (fallback ''model'' [fb] (final_call ev p mc rt) s))"
    by (rule fallback_rel[where R = ?R])
       (auto simp: final_call_def Let_def sent_messages_def issue_def adds_def
             split: sum.splits)
  then show ?thesis using Inr
    by (auto simp: final_stage_def Let_def split: prod.splits sum.splits option.splits)
qed

lemma reasoning_stage_inserts:
  assumes "reasoning_stage ev p pre s = (Inr (Some t), s')"
  shows "reasoning_enabled p pre
         \<and> prompts s' = splice (int (length (prompts s)) - 1)
                          \<lparr> role = RUser, content = Str (''Context: '' @ t) \<rparr> (prompts s)"
proof -
  have en: "reasoning_enabled p pre"
    using assms by (auto simp: reasoning_stage_def split: if_splits)
  let ?f = "fallback ''model'' [Some (LanguageModel deepinfra ''deepseek-ai/DeepSeek-R1'' False)]
              (reasoning_call ev p) s"
  have pr: "prompts (snd ?f) = prompts s" by (rule reasoning_fallback_prompts)
  obtain r s1 where f: "?f = (r, s1)" by (cases ?f)
  with pr have "prompts s1 = prompts s" by simp
  then show ?thesis using assms en f
    by (auto simp: reasoning_stage_def interpolate_def split: sum.splits)
qed

lemma no_final_before:
  assumes "set (stages_called s1) \<subseteq> {Planner}"
    and "web_stage ev p pre ltp s1 = (r2, s2)"
    and "tool_stage ev p pre tls ltp files s2 = (r3, s3)"
    and "reasoning_stage ev p pre s3 = (r4, s4)"
  shows "Final \<notin> set (stages_called (snd (multi_stage ev p ml s4)))"
proof -
  have "adds (\<lambda>sc. fst sc = WebSearch \<and> tagged p sc) s1 s2"
    using web_adds[of p s1 ev pre ltp] assms(2) by simp
  then have 2: "Final \<in> set (stages_called s2) \<longleftrightarrow> Final \<in> set (stages_called s1)"
    by (rule adds_other) auto
  have "adds (\<lambda>sc. fst sc = ToolRun \<and> tagged p sc) s2 s3"
    using tool_adds[of p s2 ev pre tls ltp files] assms(3) by simp
  then have 3: "Final \<in> set (stages_called s3) \<longleftrightarrow> Final \<in> set (stages_called s2)"
    by (rule adds_other) auto
  have "adds (\<lambda>sc. fst sc = Reasoning \<and> tagged p sc) s3 s4"
    using reasoning_adds[of p s3 ev pre] assms(4) by simp
  then have 4: "Final \<in> set (stages_called s4) \<longleftrightarrow> Final \<in> set (stages_called s3)"
    by (rule adds_other) auto
  have "Final \<in> set (stages_called (snd (multi_stage ev p ml s4)))
          \<longleftrightarrow> Final \<in> set (stages_called s4)"
    by (rule adds_other[OF multi_adds]) auto
  with 2 3 4 assms(1) show ?thesis by auto
qed

lemma final_calls_send:
  assumes "Final \<notin> set (stages_called s)"
  shows "\<forall>(st, c) \<in> set (calls (snd (final_stage ev p ml mc rt s))).
           st = Final \<longrightarrow>
           sent_messages c = Some (messageMap (prompts (snd (final_stage ev p ml mc rt s))) False)"
proof -
  from final_stage_sends[of ev p ml mc rt s]
  obtain ext where pr: "prompts (snd (final_stage ev p ml mc rt s)) = prompts s"
    and e: "calls (snd (final_stage ev p ml mc rt s)) = calls s @ ext"
    and a: "list_all (\<lambda>sc. fst sc = Final
               \<and> sent_messages (snd sc) = Some (messageMap (prompts s) False)) ext"
    by (auto simp: adds_def)
  show ?thesis using assms unfolding pr e
    using a by (auto simp: stages_called_def list_all_iff image_iff)
qed

lemma messageMap_text_turn:
  "\<lparr> role = r, content = Str t \<rparr> \<in> set ps
     \<Longrightarrow> \<lparr> m_content = CoreStr t, m_role = r \<rparr> \<in> set (messageMap ps b)"
  by (force simp: messageMap_def image_iff)

text \<open>
  Claim C10.  Take a request whose Planner has returned and whose web stage and
  tool-calling stage have not thrown, and let the reasoning stage return the extracted
  text \<open>rt\<close>.  When \<open>rt\<close> is the empty string, the reasoning sub-run has issued its
  completion, the turn \<^verbatim>\<open>Context: \<close> has been inserted before the last turn of the
  conversation, it is in the conversation when \<^verbatim>\<open>generate\<close> ends, and every final
  completion, the retries included, is sent the conversation with that turn in it.  When
  \<^verbatim>\<open>generate\<close> returns a result, its \<^verbatim>\<open>reasoningText\<close> is absent for an empty or an absent
  \<open>rt\<close>, and it is \<open>rt\<close> otherwise.
\<close>

theorem empty_reasoning_text:
  assumes "prompts_of p \<noteq> []"
    and "decidePreConfig ev modelList (allTools (tools p)) (prompts_of p)
           (initial_state (prompts_of p)) = (Inr pre, s1)"
    and "ltp = latestTextPrompt_of (content (last (prompts_of p)))"
    and "files = latestPromptFiles (content (last (prompts_of p)))"
    and "web_stage ev p pre ltp s1 = (Inr (), s2)"
    and "tool_stage ev p pre (allTools (tools p)) ltp files s2 = (Inr (), s3)"
    and "reasoning_stage ev p pre s3 = (Inr rt, s4)"
  shows "(rt = Some [] \<longrightarrow>
            Reasoning \<in> set (stages_called (snd (generate ev p)))
          \<and> prompts s4 = splice (int (length (prompts s3)) - 1)
                            \<lparr> role = RUser, content = Str ''Context: '' \<rparr> (prompts s3)
          \<and> \<lparr> role = RUser, content = Str ''Context: '' \<rparr> \<in> set (prompts (snd (generate ev p)))
          \<and> \<lparr> m_content = CoreStr ''Context: '', m_role = RUser \<rparr>
               \<in> set (messageMap (prompts (snd (generate ev p))) False)
          \<and> (\<forall>(st, c) \<in> set (calls (snd (generate ev p))).
                st = Final \<longrightarrow>
                sent_messages c = Some (messageMap (prompts (snd (generate ev p))) False)))
       \<and> (\<forall>res s'. generate ev p = (Inr res, s') \<longrightarrow>
            reasoningText res = (case rt of None \<Rightarrow> None
                                 | Some t \<Rightarrow> if t = [] then None else Some t))"
proof -
  let ?mc = "lookup_model modelList (pc_model pre)"
  let ?s5 = "snd (multi_stage ev p modelList s4)"
  have s1: "set (stages_called s1) \<subseteq> {Planner}" by (rule planner_only[OF assms(2)])
  obtain s5 where m: "multi_stage ev p modelList s4 = (Inr (), s5)"
    using multi_stage_returns[of ev p modelList s4] by (cases "multi_stage ev p modelList s4") simp
  have "generate ev p = final_stage ev p modelList ?mc rt s5"
    unfolding generate_planned[OF assms(1-4)]
    by (simp add: and_then_def assms(5) assms(6) assms(7) m)
  moreover have "s5 = ?s5" using m by simp
  ultimately have g: "generate ev p = final_stage ev p modelList ?mc rt ?s5" by simp
  have nf: "Final \<notin> set (stages_called ?s5)"
    by (rule no_final_before[OF s1 assms(5) assms(6) assms(7)])
  have sends: "\<forall>(st, c) \<in> set (calls (snd (generate ev p))).
                st = Final \<longrightarrow>
                sent_messages c = Some (messageMap (prompts (snd (generate ev p))) False)"
    unfolding g by (rule final_calls_send[OF nf])
  have fin: "prompts (snd (generate ev p)) = prompts ?s5"
    unfolding g using final_stage_sends[of ev p modelList ?mc rt ?s5] by simp
  have rtx: "\<forall>res s'. generate ev p = (Inr res, s') \<longrightarrow>
            reasoningText res = (case rt of None \<Rightarrow> None
                                 | Some t \<Rightarrow> if t = [] then None else Some t)"
    unfolding g
    by (auto dest!: final_stage_reasoningText simp: truthy_def split: option.splits)
  have empty: "Reasoning \<in> set (stages_called (snd (generate ev p)))
          \<and> prompts s4 = splice (int (length (prompts s3)) - 1)
                            \<lparr> role = RUser, content = Str ''Context: '' \<rparr> (prompts s3)
          \<and> \<lparr> role = RUser, content = Str ''Context: '' \<rparr> \<in> set (prompts (snd (generate ev p)))
          \<and> \<lparr> m_content = CoreStr ''Context: '', m_role = RUser \<rparr>
               \<in> set (messageMap (prompts (snd (generate ev p))) False)"
    if e: "rt = Some []"
  proof -
    from reasoning_stage_inserts[OF assms(7)[unfolded e]]
    have en: "reasoning_enabled p pre"
      and ins: "prompts s4 = splice (int (length (prompts s3)) - 1)
                            \<lparr> role = RUser, content = Str ''Context: '' \<rparr> (prompts s3)"
      by simp_all
    have r: "Reasoning \<in> set (stages_called (snd (generate ev p)))"
      unfolding generate_planned[OF assms(1-4)] reasoning_in_generate[OF s1]
      using assms(5) assms(6) en by simp
    have "\<lparr> role = RUser, content = Str ''Context: '' \<rparr> \<in> set (prompts s4)"
      unfolding ins by simp
    then have c: "\<lparr> role = RUser, content = Str ''Context: '' \<rparr> \<in> set (prompts (snd (generate ev p)))"
      unfolding fin by (rule multi_stage_keeps)
    from r ins c messageMap_text_turn[OF c] show ?thesis by simp
  qed
  from empty sends rtx show ?thesis by blast
qed

section \<open>Runs in the sample environment\<close>

lemma lookup_samples:
  "lookup_model modelList ''llama-3.3-70b-specdec''
     = LOwn \<lparr> model_id = ''llama-3.3-70b-specdec'', speed = 5, smarts = 2, context_window = 8192,
          file_type_support = [''text''],
          description = ''Great for simple tasks that require speed and tool use.'',
          specialty = [''small-tasks''], model_fallback = None,
          modelProvider = Some (LanguageModel groq ''llama-3.3-70b-specdec'' False) \<rparr>"
  "lookup_model modelList ''gpt-4o''
     = LOwn \<lparr> model_id = ''gpt-4o'', speed = 2, smarts = 4, context_window = 128000,
          file_type_support = [''image'', ''text''],
          description = ''Great for highly complex tasks.'',
          specialty = [''general''], model_fallback = None,
          modelProvider = Some (LanguageModel openai ''gpt-4o'' False) \<rparr>"
  "lookup_model modelList ''gpt-5'' = LUndefined"
  "lookup_model modelList ''toString'' = LInherited"
  by (simp_all add: lookup_model_def modelList_def object_prototype_keys_def)

lemma planner_sample:
  "decidePreConfig (sample_env pre search) modelList tls ps s
     = (Inr pre, issue Planner (GenerateObject
          (no_options\<lparr> o_model := Some (LanguageModel groq ''llama-3.3-70b-specdec'' False),
             o_prompt := Some (preConfigPrompt (sample_env pre search) modelList tls ps),
             o_schema := Some preConfigSchema, o_temperature := Some 0 \<rparr>)) s)"
  by (simp add: decidePreConfig_def fallback_single planner_call_def lookup_samples
        provider_of_def spread_args_def sample_env_def)

lemma web_sample:
  "q \<noteq> [] \<Longrightarrow> web_enabled p pre \<Longrightarrow>
   web_stage (sample_env pre search_down) p pre (Some q) s
     = (Inl (Rejected ''search down''), issue WebSearch (WebSearchCall q) s)"
  by (simp add: web_stage_def sample_env_def search_down_def)

lemma web_ok_sample:
  "q \<noteq> [] \<Longrightarrow> web_enabled p pre \<Longrightarrow>
   web_stage (sample_env pre no_results) p pre (Some q) s
     = (Inr (),
        (issue WebSearch (WebSearchCall q) s)
          \<lparr> toolUsed := toolUsed s @
               [\<lparr> name = ''web_search'', result = SearchResponse [],
                  args = SearchArgs q False, tu_type = tool_context_use \<rparr>],
            prompts := splice (int (length (prompts s)) - 1)
               \<lparr> role = RUser, content = Str ''Web search result: [results]'' \<rparr>
               (prompts s) \<rparr>)"
  by (simp add: web_stage_def sample_env_def no_results_def issue_def webSearchResultMap_def
        sample_stringify_def)

lemma tool_sample:
  "pc_use_tool pre \<Longrightarrow> autoTool p \<noteq> Some False \<Longrightarrow>
   tool_stage (sample_env pre search) p pre tls ltp files s
     = (Inr (), (issue ToolRun (GenerateText
          (no_options\<lparr> o_model := Some (LanguageModel openai ''gpt-4o-mini'' False),
                     o_prompt := tool_prompt (sample_env pre search) ltp files, o_system := system p,
                     o_tools := Some tls,
                     o_toolChoice := Some ''auto'', o_maxSteps := Some 5,
                     o_temperature := Some (temperature_of p), o_topK := topK p,
                     o_topP := topP p \<rparr>)) s)
         \<lparr> prompts := prompts s @ [\<lparr> role = RUser, content = Str ''Tool result: gpt-4o-mini'' \<rparr>] \<rparr>)"
  by (cases "autoTool p")
     (simp_all add: tool_stage_def autoTool_of_def fallback_single tool_call_run_def spread_args_def
        sample_env_def sample_generate_def answer_def interpolate_def splice_def issue_def)

lemma empty_span: "think_extract (Some ''<think></think>'') = Inr (Some [])"
proof -
  have s1: "js_split ''<think>'' ''<think></think>'' = [[], ''</think>'']"
    by (simp add: js_split.simps)
  have s2: "js_split ''</think>'' ''</think>'' = [[], []]"
    by (simp add: js_split.simps)
  show ?thesis
    by (simp add: think_extract_def js_includes_def s1 s2 item_at_def trim_def)
qed

lemma reasoning_sample:
  "reasoning_enabled p pre \<Longrightarrow>
   reasoning_stage (sample_env pre search) p pre s
     = (Inr (Some []), (issue Reasoning (GenerateText
          (no_options\<lparr> o_model := Some (LanguageModel openai ''o3-mini'' False),
                     o_system := system p, o_messages := Some (messageMap (prompts s) True),
                     o_temperature := Some (temperature_of p), o_topK := topK p,
                     o_topP := topP p \<rparr>)) s)
         \<lparr> prompts := splice (int (length (prompts s)) - 1)
                         \<lparr> role = RUser, content = Str ''Context: '' \<rparr> (prompts s) \<rparr>)"
  by (simp add: reasoning_stage_def fallback_single reasoning_call_def spread_args_def
        sample_env_def sample_generate_def answer_def raw_reasoning_def or_else_def truthy_def
        empty_span interpolate_def issue_def)

lemma multi_sample:
  "multiLLM p = Some True \<Longrightarrow>
   multi_stage (sample_env pre search) p modelList s =
     (Inr (),
      s\<lparr> calls := calls s @ map (\<lambda>m. (MultiLLM, GenerateText (multi_options p s m)))
                    [Some (LanguageModel google ''gemini-1.5-flash'' True),
                     Some (LanguageModel openai ''gpt-4o'' False),
                     Some (LanguageModel anthropic ''claude-3-5-sonnet-latest'' False),
                     Some (LanguageModel groq ''llama-3.3-70b-specdec'' False)],
         prompts := splice (int (length (prompts s)) - 1)
           \<lparr> role = RUser,
             content = Parts [\<lparr> ptype = TText,
               data = ''Context from multiple LLMs: '' @
                 sample_stringify (StringsValue
                   [''gemini-1.5-flash'', ''gpt-4o'', ''llama-3.3-70b-specdec'']),
               mimeType = None \<rparr>] \<rparr>
           (prompts s) \<rparr>)"
  by (simp add: multi_stage_run object_keys_def modelList_def lookup_model_def provider_of_def
        sample_env_def sample_generate_def multi_options_def answer_def)

lemma final_sample:
  "\<not> truthy rt \<Longrightarrow>
   final_stage (sample_env pre search) p modelList (lookup_model modelList ''gpt-4o'') rt s
     = (Inr \<lparr> resp = answer ''gpt-4o'', res_toolUsed = toolUsed s, res_files = genFiles s,
              reasoningText = None, partialObjectStream = None, object = None \<rparr>,
        issue Final ((if stream p = Some True then StreamText else GenerateText)
          (no_options\<lparr> o_model := Some (LanguageModel openai ''gpt-4o'' False), o_system := system p,
                          o_messages := Some (messageMap (prompts s) False),
                          o_schema := schema p, o_temperature := Some (temperature_of p),
                          o_topK := topK p, o_topP := topP p \<rparr>)) s)"
  by (simp add: final_stage_def lookup_samples final_fallback_model_def truthy_def fallback_single
        final_call_def final_model_def spread_args_def sample_env_def sample_generate_def
        truthy_bool_def answer_def issue_def)

lemma final_inherited_sample:
  "\<not> truthy rt \<Longrightarrow> stream p \<noteq> Some True \<Longrightarrow>
   final_stage (sample_env pre search) p modelList (lookup_model modelList ''toString'') rt s
     = (Inr \<lparr> resp = answer ''gpt-4o'', res_toolUsed = toolUsed s, res_files = genFiles s,
              reasoningText = None, partialObjectStream = None, object = None \<rparr>,
        issue Final (GenerateText
          (no_options\<lparr> o_model := Some (LanguageModel openai ''gpt-4o'' False), o_system := system p,
                          o_messages := Some (messageMap (prompts s) False),
                          o_schema := schema p, o_temperature := Some (temperature_of p),
                          o_topK := topK p, o_topP := topP p \<rparr>))
         (issue Final (GenerateText
          (no_options\<lparr> o_model := None, o_system := system p,
                          o_messages := Some (messageMap (prompts s) False),
                          o_schema := schema p, o_temperature := Some (temperature_of p),
                          o_topK := topK p, o_topP := topP p \<rparr>)) s))"
  by (simp add: final_stage_def lookup_samples final_fallback_model_def truthy_def fallback_single
        final_call_def final_model_def spread_args_def sample_env_def sample_generate_def
        truthy_bool_def answer_def issue_def)

lemmas run_simps = generate_def prompts_of_def plain_request_def item_at_def and_then_def
  planner_sample augment_def Let_def plan_def initial_state_def issue_def skip_stages
  web_enabled_def web_flag_def truthy_bool_def reasoning_enabled_def truthy_def
  autoTool_of_def latestTextPrompt_of_def

text \<open>
  Claim C1 at a failing input.  The request is the prompt \<^verbatim>\<open>hi\<close> with no flags, and the
  Planner enables the tool-calling sub-run only.  The final completion is issued with two
  messages, and the last of them is the synthetic \<^verbatim>\<open>Tool result\<close> turn, not the turn
  \<^verbatim>\<open>hi\<close> that was the last one at the start of the request.
\<close>

theorem tool_turn_becomes_last:
  "prompts_of (plain_request ''hi'') = [\<lparr> role = RUser, content = Str ''hi'' \<rparr>]
   \<and> messages_sent (snd (generate (sample_env (plan ''gpt-4o'' False False True) no_results)
                            (plain_request ''hi'')))
     = [(Planner, None), (ToolRun, None),
        (Final, Some [\<lparr> m_content = CoreStr ''hi'', m_role = RUser \<rparr>,
                      \<lparr> m_content = CoreStr ''Tool result: gpt-4o-mini'', m_role = RUser \<rparr>])]"
  by (simp add: run_simps tool_sample final_sample messages_sent_def sent_messages_def
        messageMap_def no_options_def)

text \<open>
  Claim C4 at a failing input.  The request is the prompt \<^verbatim>\<open>hi\<close> with the multi-model flag
  and streaming both enabled, and the Planner enables no stage.  One completion per model
  of the registry is issued before the final streamed completion, and the turn
  \<^verbatim>\<open>Context from multiple LLMs\<close> is in the conversation.
\<close>

theorem cross_check_runs_while_streaming:
  "stages_called (snd (generate (sample_env (plan ''gpt-4o'' False False False) no_results)
                      ((plain_request ''hi'')\<lparr> multiLLM := Some True, stream := Some True \<rparr>)))
     = [Planner, MultiLLM, MultiLLM, MultiLLM, MultiLLM, Final]
   \<and> streamed (snd (last (calls (snd (generate
                      (sample_env (plan ''gpt-4o'' False False False) no_results)
                      ((plain_request ''hi'')\<lparr> multiLLM := Some True, stream := Some True \<rparr>))))))
   \<and> map content
       (prompts (snd (generate (sample_env (plan ''gpt-4o'' False False False) no_results)
                      ((plain_request ''hi'')\<lparr> multiLLM := Some True, stream := Some True \<rparr>))))
     = [Parts [\<lparr> ptype = TText,
                 data = ''Context from multiple LLMs: '' @
                   quoted_list [''gemini-1.5-flash'', ''gpt-4o'', ''llama-3.3-70b-specdec''],
                 mimeType = None \<rparr>],
        Str ''hi'']"
  by (simp add: run_simps multi_sample final_sample stages_called_def streamed_def
        splice_def sample_stringify_def)

section \<open>The claims at concrete inputs\<close>

text \<open>A request without a temperature in which every stage runs.\<close>

theorem default_temperature_zero_witness:
  "temperature ((plain_request ''hi'')\<lparr> multiLLM := Some True \<rparr>) = None
   \<and> stages_called (snd (generate (sample_env (plan ''gpt-4o'' True True True) no_results)
                           ((plain_request ''hi'')\<lparr> multiLLM := Some True \<rparr>)))
       = [Planner, WebSearch, ToolRun, Reasoning, MultiLLM, MultiLLM, MultiLLM, MultiLLM, Final]
   \<and> list_all (\<lambda>sc. fst sc \<in> {Planner, WebSearch} \<or> call_temperature (snd sc) = Some 0)
        (calls (snd (generate (sample_env (plan ''gpt-4o'' True True True) no_results)
                       ((plain_request ''hi'')\<lparr> multiLLM := Some True \<rparr>))))"
proof -
  let ?E = "sample_env (plan ''gpt-4o'' True True True) no_results"
  let ?P = "(plain_request ''hi'')\<lparr> multiLLM := Some True \<rparr>"
  have t: "temperature ?P = None" by (simp add: plain_request_def)
  have en: "reasoning_enabled ?P (plan ''gpt-4o'' True True True)"
           "web_enabled ?P (plan ''gpt-4o'' True True True)"
           "pc_use_tool (plan ''gpt-4o'' True True True)" "autoTool ?P \<noteq> Some False"
           "multiLLM ?P = Some True"
    by (simp_all add: reasoning_enabled_def web_enabled_def web_flag_def plan_def plain_request_def)
  have st: "stages_called (snd (generate ?E ?P))
       = [Planner, WebSearch, ToolRun, Reasoning, MultiLLM, MultiLLM, MultiLLM, MultiLLM, Final]"
    using en
    by (simp add: generate_def prompts_of_def plain_request_def item_at_def and_then_def
          planner_sample augment_def Let_def latestTextPrompt_of_def web_ok_sample tool_sample
          reasoning_sample multi_sample final_sample truthy_def stages_called_def issue_def
          initial_state_def plan_def)
  have "\<forall>(st, c) \<in> set (calls (snd (generate ?E ?P))).
          st \<in> {ToolRun, Reasoning, MultiLLM, Final} \<longrightarrow> call_temperature c = Some 0"
    using default_temperature_zero [OF t] .
  then have "list_all (\<lambda>sc. fst sc \<in> {Planner, WebSearch} \<or> call_temperature (snd sc) = Some 0)
        (calls (snd (generate ?E ?P)))"
    unfolding list_all_iff
  proof (intro ballI)
    fix sc assume a: "\<forall>(st, c) \<in> set (calls (snd (generate ?E ?P))).
          st \<in> {ToolRun, Reasoning, MultiLLM, Final} \<longrightarrow> call_temperature c = Some 0"
      and m: "sc \<in> set (calls (snd (generate ?E ?P)))"
    obtain st c where sc: "sc = (st, c)" by (cases sc)
    from a m sc show "fst sc \<in> {Planner, WebSearch} \<or> call_temperature (snd sc) = Some 0"
      by (cases st) auto
  qed
  with t st show ?thesis by simp
qed

text \<open>The Planner answers \<^verbatim>\<open>gpt-5\<close>, which the registry does not have, and enables no
  stage: the request fails with the type error and no final completion is issued.\<close>

theorem unknown_model_fails_witness:
  "prompts_of (plain_request ''hi'') \<noteq> []
   \<and> lookup_model modelList (pc_model (plan ''gpt-5'' False False False)) = LUndefined
   \<and> fst (decidePreConfig (sample_env (plan ''gpt-5'' False False False) no_results) modelList
             (allTools (tools (plain_request ''hi''))) (prompts_of (plain_request ''hi''))
             (initial_state (prompts_of (plain_request ''hi''))))
       = Inr (plan ''gpt-5'' False False False)
   \<and> fst (generate (sample_env (plan ''gpt-5'' False False False) no_results) (plain_request ''hi''))
       = Inl (TypeError ''reading id of undefined'')
   \<and> Final \<notin> set (stages_called (snd (generate
                     (sample_env (plan ''gpt-5'' False False False) no_results)
                     (plain_request ''hi''))))"
proof -
  let ?E = "sample_env (plan ''gpt-5'' False False False) no_results"
  let ?P = "plain_request ''hi''"
  let ?d = "decidePreConfig ?E modelList (allTools (tools ?P)) (prompts_of ?P)
              (initial_state (prompts_of ?P))"
  have h1: "prompts_of ?P \<noteq> []" by (simp add: prompts_of_def plain_request_def)
  have h2: "?d = (Inr (plan ''gpt-5'' False False False), snd ?d)"
    by (simp add: planner_sample)
  have h3: "lookup_model modelList (pc_model (plan ''gpt-5'' False False False)) = LUndefined"
    by (simp add: plan_def lookup_samples)
  have aug: "augment ?E ?P (plan ''gpt-5'' False False False)
               (latestTextPrompt_of (content (last (prompts_of ?P))))
               (latestPromptFiles (content (last (prompts_of ?P)))) (allTools (tools ?P)) (snd ?d)
             = (Inr None, snd ?d)"
    by (simp add: run_simps)
  have h2f: "fst ?d = Inr (plan ''gpt-5'' False False False)"
    by (simp add: planner_sample)
  have r: "fst (generate ?E ?P) = Inl (TypeError ''reading id of undefined'')
           \<and> (\<forall>(st, c) \<in> set (calls (snd (generate ?E ?P))). st \<noteq> Final)"
    using unknown_model_fails [OF h1 h2 h3] by (simp add: aug)
  then have "Final \<notin> set (stages_called (snd (generate ?E ?P)))"
    by (auto simp: stages_called_def)
  with r h1 h2f h3 show ?thesis by blast
qed

text \<open>
  Two requests whose Planner returns an identifier that is not a key of the registry.  With
  \<^verbatim>\<open>toString\<close>, a property that the registry object inherits, the first final completion
  is issued without a model and rejected, the fallback executor substitutes \<^verbatim>\<open>gpt-4o\<close>,
  and \<^verbatim>\<open>generate\<close> returns the answer of \<^verbatim>\<open>gpt-4o\<close>.  With \<^verbatim>\<open>gpt-5\<close> and a web search
  that is enabled and rejected, \<^verbatim>\<open>generate\<close> fails with the error of the search.
\<close>

theorem unknown_model_counterexample:
  "''toString'' \<notin> set (object_keys modelList)
   \<and> models_called (snd (generate (sample_env (plan ''toString'' False False False) no_results)
                           (plain_request ''hi'')))
       = [(Planner, Some (LanguageModel groq ''llama-3.3-70b-specdec'' False)),
          (Final, None),
          (Final, Some (LanguageModel openai ''gpt-4o'' False))]
   \<and> result_text (fst (generate (sample_env (plan ''toString'' False False False) no_results)
                          (plain_request ''hi'')))
       = Inr ''gpt-4o''
   \<and> ''gpt-5'' \<notin> set (object_keys modelList)
   \<and> result_text (fst (generate (sample_env (plan ''gpt-5'' False True False) search_down)
                          (plain_request ''hi'')))
       = Inl (Rejected ''search down'')"
proof -
  have k: "''toString'' \<notin> set (object_keys modelList)" "''gpt-5'' \<notin> set (object_keys modelList)"
    by (simp_all add: object_keys_def modelList_def)
  have w: "web_enabled (plain_request ''hi'') (plan ''gpt-5'' False True False)"
    by (simp add: web_enabled_def web_flag_def plain_request_def plan_def)
  have a: "fst (generate (sample_env (plan ''gpt-5'' False True False) search_down)
                  (plain_request ''hi''))
             = Inl (Rejected ''search down'')"
    using web_sample[OF _ w, of "''hi''"]
    by (simp add: generate_def prompts_of_def plain_request_def item_at_def and_then_def
          planner_sample augment_def latestTextPrompt_of_def Let_def)
  have b: "generate (sample_env (plan ''toString'' False False False) no_results) (plain_request ''hi'')
             = final_stage (sample_env (plan ''toString'' False False False) no_results)
                 (plain_request ''hi'') modelList (lookup_model modelList ''toString'') None
                 (issue Planner (GenerateObject
                    (no_options\<lparr> o_model := Some (LanguageModel groq ''llama-3.3-70b-specdec'' False),
                       o_prompt := Some (preConfigPrompt
                          (sample_env (plan ''toString'' False False False) no_results) modelList
                          (allTools []) [\<lparr> role = RUser, content = Str ''hi'' \<rparr>]),
                       o_schema := Some preConfigSchema, o_temperature := Some 0 \<rparr>))
                    (initial_state [\<lparr> role = RUser, content = Str ''hi'' \<rparr>]))"
    by (simp add: generate_def prompts_of_def plain_request_def item_at_def and_then_def
          planner_sample augment_def skip_stages plan_def web_enabled_def web_flag_def
          truthy_bool_def reasoning_enabled_def Let_def latestTextPrompt_of_def)
  have c: "models_called (snd (generate (sample_env (plan ''toString'' False False False) no_results)
                                 (plain_request ''hi'')))
             = [(Planner, Some (LanguageModel groq ''llama-3.3-70b-specdec'' False)),
                (Final, None),
                (Final, Some (LanguageModel openai ''gpt-4o'' False))]
           \<and> result_text (fst (generate (sample_env (plan ''toString'' False False False) no_results)
                                  (plain_request ''hi'')))
             = Inr ''gpt-4o''"
    unfolding b
    by (subst final_inherited_sample, simp add: truthy_def, simp add: plain_request_def,
        subst final_inherited_sample, simp add: truthy_def, simp add: plain_request_def,
        simp add: models_called_def sent_model_def issue_def initial_state_def no_options_def
          result_text_def answer_def)
  show ?thesis
    using k a c by (simp add: result_text_def)
qed

text \<open>The cross-check over the four models of the registry, of which the Anthropic one
  is rejected: the inserted turn lists the three other answers in the order of the keys.\<close>

theorem multi_stage_fulfilled_only_witness:
  "multiLLM ((plain_request ''hi'')\<lparr> multiLLM := Some True \<rparr>) = Some True
   \<and> fst (multi_stage (sample_env (plan ''gpt-4o'' False False False) no_results)
            ((plain_request ''hi'')\<lparr> multiLLM := Some True \<rparr>) modelList
            (initial_state [\<lparr> role = RUser, content = Str ''hi'' \<rparr>])) = Inr ()
   \<and> models_called (snd (multi_stage (sample_env (plan ''gpt-4o'' False False False) no_results)
            ((plain_request ''hi'')\<lparr> multiLLM := Some True \<rparr>) modelList
            (initial_state [\<lparr> role = RUser, content = Str ''hi'' \<rparr>])))
       = [(MultiLLM, Some (LanguageModel google ''gemini-1.5-flash'' True)),
          (MultiLLM, Some (LanguageModel openai ''gpt-4o'' False)),
          (MultiLLM, Some (LanguageModel anthropic ''claude-3-5-sonnet-latest'' False)),
          (MultiLLM, Some (LanguageModel groq ''llama-3.3-70b-specdec'' False))]
   \<and> map content (prompts (snd (multi_stage (sample_env (plan ''gpt-4o'' False False False) no_results)
            ((plain_request ''hi'')\<lparr> multiLLM := Some True \<rparr>) modelList
            (initial_state [\<lparr> role = RUser, content = Str ''hi'' \<rparr>]))))
       = [Parts [\<lparr> ptype = TText,
                   data = ''Context from multiple LLMs: '' @
                     quoted_list [''gemini-1.5-flash'', ''gpt-4o'', ''llama-3.3-70b-specdec''],
                   mimeType = None \<rparr>],
          Str ''hi'']"
proof -
  have h: "multiLLM ((plain_request ''hi'')\<lparr> multiLLM := Some True \<rparr>) = Some True"
    by (simp add: plain_request_def)
  show ?thesis
    using multi_stage_fulfilled_only [OF h,
            of "sample_env (plan ''gpt-4o'' False False False) no_results" modelList
               "initial_state [\<lparr> role = RUser, content = Str ''hi'' \<rparr>]"] h
    by (simp add: object_keys_def modelList_def lookup_model_def provider_of_def
          sample_env_def sample_generate_def multi_options_def answer_def models_called_def
          sent_model_def initial_state_def splice_def sample_stringify_def no_options_def)
qed

text \<open>The reference \<^verbatim>\<open>https://onellmref.com/0\<close> of the attached receipt reaches the three
  capabilities as the address of the receipt; the reference \<^verbatim>\<open>https://onellmref.com/7\<close>,
  which no part has, reaches them unchanged.\<close>

lemma string_of_nat_0: "string_of_nat 0 = ''0''"
proof -
  have "(of_char (char_of (48::nat)) :: nat) = of_char (CHR ''0'')"
    by (simp add: of_char_of)
  then have "char_of (48::nat) = CHR ''0''"
    by (simp only: of_char_eq_iff)
  then show ?thesis
    by (subst string_of_nat.simps) (simp add: digit_char_def)
qed

lemma sample_files:
  "latestPromptFiles receipt_turn
     = [\<lparr> ref = ''https://onellmref.com/0'',
          file_part = \<lparr> ptype = TImage, data = ''https://example.com/receipt.jpg'',
                        mimeType = Some ''image/jpg'' \<rparr> \<rparr>]"
  "latestPromptFiles blank_turn
     = [\<lparr> ref = ''https://onellmref.com/0'',
          file_part = \<lparr> ptype = TImage, data = [], mimeType = Some ''image/png'' \<rparr> \<rparr>]"
  by (simp_all add: latestPromptFiles_def receipt_turn_def blank_turn_def string_of_nat_0)

theorem tools_resolve_reference_witness:
  "ai_scraper_execute (sample_env (plan ''gpt-4o'' False False True) no_results)
       (latestPromptFiles receipt_turn) ''https://onellmref.com/0'' [''total'']
     = Inr ''https://example.com/receipt.jpg''
   \<and> ocr_execute (sample_env (plan ''gpt-4o'' False False True) no_results)
       (latestPromptFiles receipt_turn) ''https://onellmref.com/0'' [''total'']
     = Inr ''https://example.com/receipt.jpg''
   \<and> speech_to_text_execute (sample_env (plan ''gpt-4o'' False False True) no_results)
       (latestPromptFiles receipt_turn) ''https://onellmref.com/0''
     = Inr ''https://example.com/receipt.jpg''
   \<and> ai_scraper_execute (sample_env (plan ''gpt-4o'' False False True) no_results)
       (latestPromptFiles receipt_turn) ''https://onellmref.com/7'' [''total'']
     = Inr ''https://onellmref.com/7''
   \<and> ocr_execute (sample_env (plan ''gpt-4o'' False False True) no_results)
       (latestPromptFiles receipt_turn) ''https://onellmref.com/7'' [''total'']
     = Inr ''https://onellmref.com/7''
   \<and> speech_to_text_execute (sample_env (plan ''gpt-4o'' False False True) no_results)
       (latestPromptFiles receipt_turn) ''https://onellmref.com/7''
     = Inr ''https://onellmref.com/7''"
  using tools_resolve_reference
          [of 0 receipt_turn "sample_env (plan ''gpt-4o'' False False True) no_results"
              "[''total'']" "''https://onellmref.com/7''"]
  by (simp add: sample_files string_of_nat_0 sample_env_def Let_def)

text \<open>An image part whose data is the empty string: its reference reaches the scraper as
  the reference itself, not as the empty data.\<close>

theorem empty_payload_counterexample:
  "ref (latestPromptFiles blank_turn ! 0) = ''https://onellmref.com/0''
   \<and> data (file_part (latestPromptFiles blank_turn ! 0)) = []
   \<and> ai_scraper_execute (sample_env (plan ''gpt-4o'' False False True) no_results)
        (latestPromptFiles blank_turn) ''https://onellmref.com/0'' [''total'']
       = ai_scrape (sample_env (plan ''gpt-4o'' False False True) no_results)
           ''https://onellmref.com/0'' [''total'']
   \<and> ai_scrape (sample_env (plan ''gpt-4o'' False False True) no_results)
           ''https://onellmref.com/0'' [''total'']
       \<noteq> ai_scrape (sample_env (plan ''gpt-4o'' False False True) no_results)
           (data (file_part (latestPromptFiles blank_turn ! 0))) [''total'']"
  by (simp add: sample_files ai_scraper_execute_def resolve_url_def js_includes_def
        sample_env_def)

text \<open>With \<^verbatim>\<open>autoTool\<close> set and a Planner that asks for no tools, the tool-calling
  sub-run issues no completion.\<close>

lemma autoTool_true_does_not_force:
  "stages_called (snd (generate (sample_env (plan ''gpt-4o'' False False False) no_results)
                         ((plain_request ''hi'')\<lparr> autoTool := Some True \<rparr>)))
     = [Planner, Final]"
  by (simp add: run_simps final_sample stages_called_def)

text \<open>
  Two requests with the prompt \<^verbatim>\<open>hi\<close>.  In the first the caller sets the reasoning flag and
  clears the web flag while the Planner asks for the search and for tools and not for
  reasoning: the search is not called, the tool-calling sub-run and the reasoning sub-run
  are.  In the second the caller sets the web flag and clears \<^verbatim>\<open>autoTool\<close> and the reasoning
  flag while the Planner asks for tools and for reasoning and not for the search: the
  search is called, the two sub-runs are not.
\<close>

theorem caller_flags_override_witness:
  "prompts_of ((plain_request ''hi'')\<lparr> reasoning := Some True,
                                       contextTool := Some \<lparr> web = Some False \<rparr> \<rparr>) \<noteq> []
   \<and> fst (decidePreConfig (sample_env (plan ''gpt-4o'' False True True) no_results) modelList
             (allTools []) [\<lparr> role = RUser, content = Str ''hi'' \<rparr>]
             (initial_state [\<lparr> role = RUser, content = Str ''hi'' \<rparr>]))
       = Inr (plan ''gpt-4o'' False True True)
   \<and> WebSearch \<notin> set (stages_called (snd (generate
         (sample_env (plan ''gpt-4o'' False True True) no_results)
         ((plain_request ''hi'')\<lparr> reasoning := Some True,
                                  contextTool := Some \<lparr> web = Some False \<rparr> \<rparr>))))
   \<and> ToolRun \<in> set (stages_called (snd (generate
         (sample_env (plan ''gpt-4o'' False True True) no_results)
         ((plain_request ''hi'')\<lparr> reasoning := Some True,
                                  contextTool := Some \<lparr> web = Some False \<rparr> \<rparr>))))
   \<and> Reasoning \<in> set (stages_called (snd (generate
         (sample_env (plan ''gpt-4o'' False True True) no_results)
         ((plain_request ''hi'')\<lparr> reasoning := Some True,
                                  contextTool := Some \<lparr> web = Some False \<rparr> \<rparr>))))
   \<and> WebSearch \<in> set (stages_called (snd (generate
         (sample_env (plan ''gpt-4o'' True False True) no_results)
         ((plain_request ''hi'')\<lparr> reasoning := Some False, autoTool := Some False,
                                  contextTool := Some \<lparr> web = Some True \<rparr> \<rparr>))))
   \<and> ToolRun \<notin> set (stages_called (snd (generate
         (sample_env (plan ''gpt-4o'' True False True) no_results)
         ((plain_request ''hi'')\<lparr> reasoning := Some False, autoTool := Some False,
                                  contextTool := Some \<lparr> web = Some True \<rparr> \<rparr>))))
   \<and> Reasoning \<notin> set (stages_called (snd (generate
         (sample_env (plan ''gpt-4o'' True False True) no_results)
         ((plain_request ''hi'')\<lparr> reasoning := Some False, autoTool := Some False,
                                  contextTool := Some \<lparr> web = Some True \<rparr> \<rparr>))))"
proof -
  let ?E = "sample_env (plan ''gpt-4o'' False True True) no_results"
  let ?P = "(plain_request ''hi'')\<lparr> reasoning := Some True,
                                     contextTool := Some \<lparr> web = Some False \<rparr> \<rparr>"
  let ?F = "sample_env (plan ''gpt-4o'' True False True) no_results"
  let ?Q = "(plain_request ''hi'')\<lparr> reasoning := Some False, autoTool := Some False,
                                     contextTool := Some \<lparr> web = Some True \<rparr> \<rparr>"
  have p: "prompts_of ?P = [\<lparr> role = RUser, content = Str ''hi'' \<rparr>]"
          "prompts_of ?Q = [\<lparr> role = RUser, content = Str ''hi'' \<rparr>]"
          "tools ?P = []" "tools ?Q = []"
    by (simp_all add: prompts_of_def plain_request_def)
  have ne: "prompts_of ?P \<noteq> []" "prompts_of ?Q \<noteq> []" by (simp_all add: p)
  have d1: "decidePreConfig ?E modelList (allTools (tools ?P)) (prompts_of ?P)
              (initial_state (prompts_of ?P))
            = (Inr (plan ''gpt-4o'' False True True),
               snd (decidePreConfig ?E modelList (allTools (tools ?P)) (prompts_of ?P)
                      (initial_state (prompts_of ?P))))"
    by (simp add: planner_sample)
  have d2: "decidePreConfig ?F modelList (allTools (tools ?Q)) (prompts_of ?Q)
              (initial_state (prompts_of ?Q))
            = (Inr (plan ''gpt-4o'' True False True),
               snd (decidePreConfig ?F modelList (allTools (tools ?Q)) (prompts_of ?Q)
                      (initial_state (prompts_of ?Q))))"
    by (simp add: planner_sample)
  have f1: "web_flag ?P = Some False" "reasoning ?P = Some True" "autoTool ?P = None"
    and f2: "web_flag ?Q = Some True" "reasoning ?Q = Some False" "autoTool ?Q = Some False"
    by (simp_all add: web_flag_def plain_request_def)
  have w1: "\<not> web_enabled ?P (plan ''gpt-4o'' False True True)"
    by (simp add: web_enabled_def f1)
  have w0: "\<not> (truthy ltp \<and> web_enabled ?P (plan ''gpt-4o'' False True True))" for ltp
    by (simp add: w1)
  have t1: "pc_use_tool (plan ''gpt-4o'' False True True)" "autoTool ?P \<noteq> Some False"
    by (simp_all add: plan_def f1)
  have a: "WebSearch \<notin> set (stages_called (snd (generate ?E ?P)))
           \<and> ToolRun \<in> set (stages_called (snd (generate ?E ?P)))
           \<and> Reasoning \<in> set (stages_called (snd (generate ?E ?P)))"
    using caller_flags_override[OF ne(1) d1 refl refl]
    by (simp add: f1 skip_stages(1)[OF w0] tool_sample[OF t1] t1)
  have w2: "web_enabled ?Q (plan ''gpt-4o'' True False True)"
    by (simp add: web_enabled_def f2 truthy_bool_def)
  have b: "WebSearch \<in> set (stages_called (snd (generate ?F ?Q)))
           \<and> ToolRun \<notin> set (stages_called (snd (generate ?F ?Q)))
           \<and> Reasoning \<notin> set (stages_called (snd (generate ?F ?Q)))"
    using caller_flags_override[OF ne(2) d2 refl refl]
    by (simp add: f2 p latestTextPrompt_of_def)
  have "fst (decidePreConfig ?E modelList (allTools []) [\<lparr> role = RUser, content = Str ''hi'' \<rparr>]
             (initial_state [\<lparr> role = RUser, content = Str ''hi'' \<rparr>]))
       = Inr (plan ''gpt-4o'' False True True)"
    by (simp add: planner_sample)
  with ne(1) a b show ?thesis by blast
qed

text \<open>
  Claim C5 as stated fails at two requests.  In the first the latest turn has two text
  parts, an empty one and the question \<^verbatim>\<open>who won?\<close>; the caller sets the web flag and the
  Planner asks for the search as well, and no search is called.  In the second the caller
  sets the reasoning flag, the Planner asks for the search, and the search is rejected:
  the request ends there and the reasoning sub-run issues no completion.
\<close>

theorem forced_stage_not_run_counterexample:
  "latestTextPrompt_of two_texts_turn = Some []
   \<and> stages_called (snd (generate (sample_env (plan ''gpt-4o'' False True False) no_results)
        ((turn_request two_texts_turn)\<lparr> contextTool := Some \<lparr> web = Some True \<rparr> \<rparr>)))
       = [Planner, Final]
   \<and> stages_called (snd (generate (sample_env (plan ''gpt-4o'' False True False) search_down)
        ((plain_request ''hi'')\<lparr> reasoning := Some True \<rparr>)))
       = [Planner, WebSearch]
   \<and> fst (generate (sample_env (plan ''gpt-4o'' False True False) search_down)
        ((plain_request ''hi'')\<lparr> reasoning := Some True \<rparr>))
       = Inl (Rejected ''search down'')"
proof -
  have w: "web_enabled ((plain_request ''hi'')\<lparr> reasoning := Some True \<rparr>)
             (plan ''gpt-4o'' False True False)"
    by (simp add: web_enabled_def web_flag_def plain_request_def plan_def)
  have a: "latestTextPrompt_of two_texts_turn = Some []"
    by (simp add: latestTextPrompt_of_def two_texts_turn_def)
  have b: "stages_called (snd (generate (sample_env (plan ''gpt-4o'' False True False) no_results)
        ((turn_request two_texts_turn)\<lparr> contextTool := Some \<lparr> web = Some True \<rparr> \<rparr>)))
       = [Planner, Final]"
    by (simp add: run_simps turn_request_def two_texts_turn_def final_sample stages_called_def)
  have c: "generate (sample_env (plan ''gpt-4o'' False True False) search_down)
        ((plain_request ''hi'')\<lparr> reasoning := Some True \<rparr>)
        = (Inl (Rejected ''search down''),
           issue WebSearch (WebSearchCall ''hi'')
             (snd (decidePreConfig (sample_env (plan ''gpt-4o'' False True False) search_down)
                modelList (allTools []) [\<lparr> role = RUser, content = Str ''hi'' \<rparr>]
                (initial_state [\<lparr> role = RUser, content = Str ''hi'' \<rparr>]))))"
    using web_sample[OF _ w, of "''hi''"]
    by (simp add: generate_def prompts_of_def plain_request_def item_at_def and_then_def
          planner_sample augment_def latestTextPrompt_of_def Let_def)
  have d: "stages_called (snd (generate (sample_env (plan ''gpt-4o'' False True False) search_down)
        ((plain_request ''hi'')\<lparr> reasoning := Some True \<rparr>)))
       = [Planner, WebSearch]"
    unfolding c by (simp add: planner_sample issue_def initial_state_def stages_called_def)
  have e: "fst (generate (sample_env (plan ''gpt-4o'' False True False) search_down)
        ((plain_request ''hi'')\<lparr> reasoning := Some True \<rparr>))
       = Inl (Rejected ''search down'')"
    unfolding c by simp
  from a b d e show ?thesis by blast
qed

text \<open>A thinking span in the reasoning trace, which wins over the answer text; a thinking
  span in the answer text; a trace and an answer without a span; and the reasoning sub-run
  of the sample environment, whose model answers with an empty span.\<close>

theorem think_extract_span_witness:
  "think_extract (raw_reasoning (Some (traced_answer ''<think> plan </think>'' ''<think>no</think>x'')))
     = Inr (Some ''plan'')
   \<and> think_extract (raw_reasoning (Some (answer ''<think> step 1 </think>four'')))
     = Inr (Some ''step 1'')
   \<and> think_extract (raw_reasoning (Some (traced_answer ''thought'' ''<think>no</think>x'')))
     = Inr (Some ''thought'')
   \<and> think_extract (raw_reasoning (Some (answer ''four''))) = Inr (Some ''four'')
   \<and> fst (reasoning_stage (sample_env (plan ''gpt-4o'' True False False) no_results)
            (plain_request ''hi'') (plan ''gpt-4o'' True False False)
            (initial_state [\<lparr> role = RUser, content = Str ''hi'' \<rparr>]))
     = Inr (Some [])"
proof -
  let ?E = "sample_env (plan ''gpt-4o'' True False False) no_results"
  let ?P = "plain_request ''hi''"
  let ?pre = "plan ''gpt-4o'' True False False"
  let ?s = "initial_state [\<lparr> role = RUser, content = Str ''hi'' \<rparr>]"
  let ?f = "fallback ''model'' [Some (LanguageModel deepinfra ''deepseek-ai/DeepSeek-R1'' False)]
              (reasoning_call ?E ?P) ?s"
  have en: "reasoning_enabled ?P ?pre"
    by (simp add: reasoning_enabled_def plan_def plain_request_def)
  have "fst ?f = Inr (Some (answer ''<think></think>''))"
    by (simp add: fallback_single reasoning_call_def spread_args_def sample_env_def
          sample_generate_def no_options_def)
  then have f: "?f = (Inr (Some (answer ''<think></think>'')), snd ?f)"
    by (metis prod.collapse)
  have e: "think_extract (raw_reasoning (Some (answer ''<think></think>''))) = Inr (Some [])"
    by (simp add: raw_reasoning_def or_else_def truthy_def answer_def empty_span)
  have a: "think_extract (raw_reasoning
              (Some (traced_answer ''<think> plan </think>'' ''<think>no</think>x'')))
             = Inr (Some (trim '' plan ''))"
    using think_extract_span
            [where r = "traced_answer ''<think> plan </think>'' ''<think>no</think>x''"
               and inner = "'' plan ''" and trailing = "[]"]
    by (simp add: traced_answer_def answer_def js_includes_def)
  have b: "think_extract (raw_reasoning (Some (answer ''<think> step 1 </think>four'')))
             = Inr (Some (trim '' step 1 ''))"
    using think_extract_span
            [where r = "answer ''<think> step 1 </think>four''"
               and inner = "'' step 1 ''" and trailing = "''four''"]
    by (simp add: answer_def truthy_def js_includes_def)
  have c: "think_extract (raw_reasoning (Some (traced_answer ''thought'' ''<think>no</think>x'')))
             = Inr (Some ''thought'')"
    using think_extract_span
            [where r = "traced_answer ''thought'' ''<think>no</think>x''" and t = "''thought''"]
    by (simp add: traced_answer_def answer_def js_includes_def)
  have d: "think_extract (raw_reasoning (Some (answer ''four''))) = Inr (Some ''four'')"
    using think_extract_span [where r = "answer ''four''"]
    by (simp add: answer_def truthy_def js_includes_def)
  have g: "fst (reasoning_stage ?E ?P ?pre ?s) = Inr (Some [])"
    using think_extract_span
            [where r = "answer ''<think></think>''" and p = ?P and pre = ?pre and ev = ?E
               and s = ?s and ?s1.0 = "snd ?f"] en f e
    by simp
  have t: "trim '' plan '' = ''plan''" "trim '' step 1 '' = ''step 1''"
    by (simp_all add: trim_def js_whitespace_def)
  show ?thesis using a b c d g by (simp only: t simp_thms)
qed

text \<open>A thinking span that itself contains \<^verbatim>\<open><think>\<close>: the extraction stops at the
  second opening delimiter and yields \<^verbatim>\<open>a\<close>, not the interior \<^verbatim>\<open>a<think>b\<close>.\<close>

theorem think_extract_nested_counterexample:
  "think_extract (raw_reasoning (Some (answer (''<think>'' @ ''a<think>b'' @ ''</think>'' @ ''c''))))
     = Inr (Some ''a'')
   \<and> trim ''a<think>b'' \<noteq> ''a''"
proof -
  have s1: "js_split ''<think>'' ''<think>a<think>b</think>c'' = [[], ''a'', ''b</think>c'']"
    by (simp add: js_split.simps)
  have s2: "js_split ''</think>'' ''a'' = [''a'']"
    by (simp add: js_split.simps)
  show ?thesis
    by (simp add: answer_def raw_reasoning_def or_else_def truthy_def think_extract_def
          js_includes_def s1 s2 item_at_def trim_def js_whitespace_def)
qed

text \<open>The request \<^verbatim>\<open>hi\<close> when the Planner asks for reasoning only and the reasoning model
  answers with an empty thinking span: the turn \<^verbatim>\<open>Context: \<close> is in the conversation and in
  the messages of the final completion, before \<^verbatim>\<open>hi\<close>, and the result has no
  \<^verbatim>\<open>reasoningText\<close>.\<close>

theorem empty_reasoning_text_witness:
  "prompts_of (plain_request ''hi'') \<noteq> []
   \<and> stages_called (snd (generate (sample_env (plan ''gpt-4o'' True False False) no_results)
                           (plain_request ''hi'')))
       = [Planner, Reasoning, Final]
   \<and> Reasoning \<in> set (stages_called (snd (generate
                          (sample_env (plan ''gpt-4o'' True False False) no_results)
                          (plain_request ''hi''))))
   \<and> \<lparr> role = RUser, content = Str ''Context: '' \<rparr>
       \<in> set (prompts (snd (generate (sample_env (plan ''gpt-4o'' True False False) no_results)
                              (plain_request ''hi''))))
   \<and> map content (prompts (snd (generate (sample_env (plan ''gpt-4o'' True False False) no_results)
                                  (plain_request ''hi''))))
       = [Str ''Context: '', Str ''hi'']
   \<and> messages_sent (snd (generate (sample_env (plan ''gpt-4o'' True False False) no_results)
                           (plain_request ''hi'')))
       = [(Planner, None),
          (Reasoning, Some [\<lparr> m_content = CoreStr ''hi'', m_role = RUser \<rparr>]),
          (Final, Some [\<lparr> m_content = CoreStr ''Context: '', m_role = RUser \<rparr>,
                        \<lparr> m_content = CoreStr ''hi'', m_role = RUser \<rparr>])]
   \<and> map_sum id reasoningText
        (fst (generate (sample_env (plan ''gpt-4o'' True False False) no_results)
                (plain_request ''hi'')))
       = Inr None"
proof -
  let ?pre = "plan ''gpt-4o'' True False False"
  let ?E = "sample_env ?pre no_results"
  let ?P = "plain_request ''hi''"
  let ?d = "decidePreConfig ?E modelList (allTools (tools ?P)) (prompts_of ?P)
              (initial_state (prompts_of ?P))"
  let ?r = "reasoning_stage ?E ?P ?pre (snd ?d)"
  have h1: "prompts_of ?P \<noteq> []" by (simp add: prompts_of_def plain_request_def)
  have h2: "?d = (Inr ?pre, snd ?d)" by (simp add: planner_sample)
  have en: "reasoning_enabled ?P ?pre"
    by (simp add: reasoning_enabled_def plan_def plain_request_def)
  have h5: "web_stage ?E ?P ?pre (latestTextPrompt_of (content (last (prompts_of ?P)))) (snd ?d)
              = (Inr (), snd ?d)"
    by (simp add: skip_stages web_enabled_def web_flag_def plan_def plain_request_def
          truthy_bool_def)
  have h6: "tool_stage ?E ?P ?pre (allTools (tools ?P))
              (latestTextPrompt_of (content (last (prompts_of ?P))))
              (latestPromptFiles (content (last (prompts_of ?P)))) (snd ?d)
              = (Inr (), snd ?d)"
    by (simp add: skip_stages plan_def)
  have h7: "?r = (Inr (Some []), snd ?r)"
    by (simp add: reasoning_sample[OF en])
  note t = empty_reasoning_text[OF h1 h2 refl refl h5 h6 h7]
  from t have in_log: "Reasoning \<in> set (stages_called (snd (generate ?E ?P)))"
    and in_conv: "\<lparr> role = RUser, content = Str ''Context: '' \<rparr>
                    \<in> set (prompts (snd (generate ?E ?P)))"
    by simp_all
  have run: "stages_called (snd (generate ?E ?P)) = [Planner, Reasoning, Final]
     \<and> map content (prompts (snd (generate ?E ?P))) = [Str ''Context: '', Str ''hi'']
     \<and> messages_sent (snd (generate ?E ?P))
       = [(Planner, None),
          (Reasoning, Some [\<lparr> m_content = CoreStr ''hi'', m_role = RUser \<rparr>]),
          (Final, Some [\<lparr> m_content = CoreStr ''Context: '', m_role = RUser \<rparr>,
                        \<lparr> m_content = CoreStr ''hi'', m_role = RUser \<rparr>])]
     \<and> map_sum id reasoningText (fst (generate ?E ?P)) = Inr None"
    using en
    by (simp add: generate_def prompts_of_def plain_request_def item_at_def and_then_def
          planner_sample augment_def Let_def latestTextPrompt_of_def skip_stages
          web_enabled_def web_flag_def truthy_bool_def plan_def
          reasoning_sample final_sample truthy_def stages_called_def messages_sent_def
          sent_messages_def messageMap_def no_options_def issue_def initial_state_def splice_def)
  from h1 in_log in_conv run show ?thesis by blast
qed

end
